theory Spec2Isabelle
  imports Complex_Main
begin

section \<open>Data model of the NH3 notebook\<close>

text \<open>
  The notebook \<^verbatim>\<open>NH3HistoricalData.ipynb\<close> holds its data in pandas tables. A table is
  modelled as the list of its rows in display order, each row paired with its index
  label; a column access by label (\<^verbatim>\<open>extrema['type'][i]\<close>) and \<^verbatim>\<open>drop(i)\<close> go
  through the label, never through the position, exactly as pandas does for an integer
  index.

  Numbers: the NH3 column is float64 in the notebook and \<open>real\<close> here (rounding is not
  modelled); a timestamp is the integer count of nanoseconds that pandas stores, and a
  time difference is again a count of nanoseconds. pandas keeps both in 64 bits; the
  integers here are unbounded, so the model describes a time difference only while the
  two timestamps are less than \<open>2^63\<close> nanoseconds (about 292 years) apart. The
  outcomes of a float division that are not numbers (infinities, NaN) are kept as
  constructors of \<open>float64\<close>. Where a claim below states computed numbers, it states
  them for concrete data on which the float64 and the 64-bit results are exact.
\<close>

datatype tag = Tmax | Tmin

record sample =
  Time :: int
  NH3 :: real

record extremum = sample +
  type :: tag

record delta_row = extremum +
  Delta_NH3 :: "real option"
  Delta_Time :: "int option"

datatype float64 = Finite real | PosInf | NegInf | NaN

record rate_row = delta_row +
  NH3_per_Hour :: float64

datatype py_error = KeyError | TypeError | ValueError

type_synonym 'r frame = "(nat \<times> 'r) list"

text \<open>A fresh \<^verbatim>\<open>RangeIndex\<close>: the rows get the labels 0, 1, 2, ...\<close>

definition reset_index :: "'r list \<Rightarrow> 'r frame" where
  "reset_index rows = zip [0..<length rows] rows"

text \<open>\<^verbatim>\<open>series[i]\<close> on an integer index: the row labelled \<open>i\<close>, or KeyError.\<close>

fun loc :: "'r frame \<Rightarrow> nat \<Rightarrow> py_error + 'r" where
  "loc [] i = Inl KeyError"
| "loc ((l, r) # fr) i = (if l = i then Inr r else loc fr i)"

text \<open>\<^verbatim>\<open>frame.drop(i, axis=0)\<close>: the rows whose label is not \<open>i\<close>; KeyError when no row
  carries the label. The labels of the other rows do not change.\<close>

definition drop_label :: "'r frame \<Rightarrow> nat \<Rightarrow> py_error + 'r frame" where
  "drop_label fr i =
     (if i \<in> set (map fst fr) then Inr (filter (\<lambda>(l, r). l \<noteq> i) fr) else Inl KeyError)"

section \<open>Detect peaks (cell 5)\<close>

text \<open>
  Modelled from the spec: the peak-finding routine \<^verbatim>\<open>find_peaks\<close> that the cell calls
  is not part of the notebook (it is imported from \<^verbatim>\<open>scipy.signal\<close>). The spec gives
  its contract: a local maximum qualifies if its value is at least the height bound and
  its topographic prominence (the height of the peak above the higher of the two
  valleys around it) is at least the prominence bound. The functions below state that
  contract as the scan the routine is documented to perform: a peak is a sample whose
  direct neighbours are lower; of a flat top the middle sample (rounded down) is
  reported; the first and the last sample are never peaks; the valley on each side is
  the lowest sample met walking away from the peak until a sample higher than the peak
  or the end of the series.
\<close>

function plateau_end :: "real list \<Rightarrow> nat \<Rightarrow> nat \<Rightarrow> nat" where
  "plateau_end x i i_ahead =
     (if i_ahead + 1 < length x \<and> x ! i_ahead = x ! i
      then plateau_end x i (i_ahead + 1) else i_ahead)"
  by pat_completeness auto
termination
  by (relation "measure (\<lambda>(x, i, i_ahead). length x - i_ahead)") auto

declare plateau_end.simps [simp del]

function local_maxima_from :: "real list \<Rightarrow> nat \<Rightarrow> nat list" where
  "local_maxima_from x i =
     (if i + 1 < length x then
        (if x ! (i - 1) < x ! i then
           (let i_ahead = plateau_end x i (i + 1) in
            if x ! i_ahead < x ! i
            then ((i + (i_ahead - 1)) div 2) # local_maxima_from x (i_ahead + 1)
            else local_maxima_from x (i + 1))
         else local_maxima_from x (i + 1))
      else [])"
  by pat_completeness auto
termination
proof (relation "measure (\<lambda>(x, i). length x - i)")
  show "wf (measure (\<lambda>(x, i). length x - i))" by simp
next
  fix x :: "real list" and i i_ahead :: nat
  assume lt: "i + 1 < length x" and ia: "i_ahead = plateau_end x i (i + 1)"
  have ge: "a \<le> plateau_end x i a" for a
  proof (induction x i a rule: plateau_end.induct)
    case (1 x i a)
    show ?case
    proof (cases "a + 1 < length x \<and> x ! a = x ! i")
      case True
      then have "a + 1 \<le> plateau_end x i (a + 1)" using 1 by simp
      moreover have "plateau_end x i a = plateau_end x i (a + 1)"
        using True by (subst plateau_end.simps) simp
      ultimately show ?thesis by simp
    next
      case False
      then have "plateau_end x i a = a" by (subst plateau_end.simps) auto
      then show ?thesis by simp
    qed
  qed
  have "i + 1 \<le> i_ahead" unfolding ia by (rule ge)
  then show "((x, i_ahead + 1), (x, i)) \<in> measure (\<lambda>(x, i). length x - i)"
    using lt by simp
qed auto

declare local_maxima_from.simps [simp del]

definition local_maxima_1d :: "real list \<Rightarrow> nat list" where
  "local_maxima_1d x = local_maxima_from x 1"

text \<open>The lowest value met on one side: \<open>vs\<close> are the samples in walking order, starting
  at the peak; \<open>h\<close> is the height of the peak, \<open>m\<close> the lowest value so far.\<close>

fun base_min :: "real \<Rightarrow> real \<Rightarrow> real list \<Rightarrow> real" where
  "base_min h m [] = m"
| "base_min h m (v # vs) = (if v \<le> h then base_min h (if v < m then v else m) vs else m)"

definition peak_prominence :: "real list \<Rightarrow> nat \<Rightarrow> real" where
  "peak_prominence x peak =
     (let left_min = base_min (x ! peak) (x ! peak) (rev (take (peak + 1) x));
          right_min = base_min (x ! peak) (x ! peak) (drop peak x)
      in x ! peak - max left_min right_min)"

definition find_peaks :: "real list \<Rightarrow> real \<Rightarrow> real \<Rightarrow> nat list" where
  "find_peaks x height prominence =
     filter (\<lambda>p. prominence \<le> peak_prominence x p)
       (filter (\<lambda>p. height \<le> x ! p) (local_maxima_1d x))"

text \<open>
  The two calls of the cell: on the NH3 column with \<^verbatim>\<open>height=max_cutoff\<close>, and on the
  negated column with \<^verbatim>\<open>height=-min_cutoff\<close>, both with \<^verbatim>\<open>prominence=0.3\<close>.
\<close>

definition maxima_idx :: "sample list \<Rightarrow> real \<Rightarrow> nat list" where
  "maxima_idx df max_cutoff = find_peaks (map NH3 df) max_cutoff (3 / 10)"

definition minima_idx :: "sample list \<Rightarrow> real \<Rightarrow> nat list" where
  "minima_idx df min_cutoff = find_peaks (map (\<lambda>r. - NH3 r) df) (- min_cutoff) (3 / 10)"

text \<open>\<^verbatim>\<open>df.iloc[idx]\<close> followed by the assignment of the \<^verbatim>\<open>type\<close> column. The row labels
  that \<^verbatim>\<open>iloc\<close> carries along are never read again (the merge builds a fresh index), so
  the two tables are lists of rows. (On a table without rows the assignment raises; that
  is part of \<open>detect_cell\<close> below.)\<close>

definition tagged :: "tag \<Rightarrow> sample \<Rightarrow> extremum" where
  "tagged t r = \<lparr>Time = Time r, NH3 = NH3 r, type = t\<rparr>"

definition detect_maxima :: "sample list \<Rightarrow> real \<Rightarrow> extremum list" where
  "detect_maxima df max_cutoff = map (\<lambda>i. tagged Tmax (df ! i)) (maxima_idx df max_cutoff)"

definition detect_minima :: "sample list \<Rightarrow> real \<Rightarrow> extremum list" where
  "detect_minima df min_cutoff = map (\<lambda>i. tagged Tmin (df ! i)) (minima_idx df min_cutoff)"

section \<open>Rate analysis (cell 6)\<close>

text \<open>
  \<^verbatim>\<open>pd.merge_ordered(maxima, minima)\<close> joins on all common columns (Time, NH3, type),
  keeps every row of both tables, orders the result by that key and numbers it afresh.
  The string \<^verbatim>\<open>'max'\<close> sorts before \<^verbatim>\<open>'min'\<close>.
\<close>

fun tag_le :: "tag \<Rightarrow> tag \<Rightarrow> bool" where
  "tag_le Tmin Tmax = False"
| "tag_le a b = True"

definition key_le :: "extremum \<Rightarrow> extremum \<Rightarrow> bool" where
  "key_le a b =
     (Time a < Time b \<or>
      (Time a = Time b \<and> (NH3 a < NH3 b \<or> (NH3 a = NH3 b \<and> tag_le (type a) (type b)))))"

fun insert_row :: "extremum \<Rightarrow> extremum list \<Rightarrow> extremum list" where
  "insert_row r [] = [r]"
| "insert_row r (x # xs) = (if key_le r x then r # x # xs else x # insert_row r xs)"

definition merge_ordered :: "extremum list \<Rightarrow> extremum list \<Rightarrow> extremum frame" where
  "merge_ordered left right = reset_index (foldr insert_row (left @ right) [])"

text \<open>
  The alternation loop:
  \<^verbatim>\<open>
  i = 0
  imax = len(extrema)
  while (i+1 < imax):
      if extrema['type'][i] == extrema['type'][i+1]:
          extrema = extrema.drop(i, axis=0)
      i += 1
  \<close>
  The result is the table at the end of the loop, or the table at the moment of the
  exception together with the exception.
\<close>

function alternation_loop ::
  "nat \<Rightarrow> nat \<Rightarrow> extremum frame \<Rightarrow> extremum frame \<times> py_error option" where
  "alternation_loop i imax extrema =
     (if i + 1 < imax then
        (case loc extrema i of
           Inl e \<Rightarrow> (extrema, Some e)
         | Inr a \<Rightarrow>
             (case loc extrema (i + 1) of
                Inl e \<Rightarrow> (extrema, Some e)
              | Inr b \<Rightarrow>
                  if type a = type b then
                    (case drop_label extrema i of
                       Inl e \<Rightarrow> (extrema, Some e)
                     | Inr extrema' \<Rightarrow> alternation_loop (i + 1) imax extrema')
                  else alternation_loop (i + 1) imax extrema))
      else (extrema, None))"
  by pat_completeness auto
termination
  by (relation "measure (\<lambda>(i, imax, extrema). imax - i)") auto

declare alternation_loop.simps [simp del]

text \<open>The same loop, returning the pairs of labelled rows whose tags it compares, in
  the order of the comparisons (a ghost of \<open>alternation_loop\<close>: same tests, same
  updates).\<close>

function alternation_compared ::
  "nat \<Rightarrow> nat \<Rightarrow> extremum frame \<Rightarrow> ((nat \<times> extremum) \<times> (nat \<times> extremum)) list" where
  "alternation_compared i imax extrema =
     (if i + 1 < imax then
        (case loc extrema i of
           Inl e \<Rightarrow> []
         | Inr a \<Rightarrow>
             (case loc extrema (i + 1) of
                Inl e \<Rightarrow> []
              | Inr b \<Rightarrow>
                  ((i, a), (i + 1, b)) #
                  (if type a = type b then
                     (case drop_label extrema i of
                        Inl e \<Rightarrow> []
                      | Inr extrema' \<Rightarrow> alternation_compared (i + 1) imax extrema')
                   else alternation_compared (i + 1) imax extrema)))
      else [])"
  by pat_completeness auto
termination
  by (relation "measure (\<lambda>(i, imax, extrema). imax - i)") auto

declare alternation_compared.simps [simp del]

text \<open>\<^verbatim>\<open>Series.diff()\<close>: by position, each entry minus the one displayed before it; the
  first entry is missing (NaN, NaT). The subtraction is exact here; pandas subtracts
  float64 values and 64-bit nanosecond counts (see the note on numbers above).\<close>

fun diff_prev :: "'a::minus \<Rightarrow> 'a list \<Rightarrow> 'a option list" where
  "diff_prev p [] = []"
| "diff_prev p (v # vs) = Some (v - p) # diff_prev v vs"

fun diff :: "'a::minus list \<Rightarrow> 'a option list" where
  "diff [] = []"
| "diff (v # vs) = None # diff_prev v vs"

definition with_delta :: "extremum \<Rightarrow> real option \<Rightarrow> int option \<Rightarrow> delta_row" where
  "with_delta r dv dt =
     \<lparr>Time = Time r, NH3 = NH3 r, type = type r, Delta_NH3 = dv, Delta_Time = dt\<rparr>"

definition add_deltas :: "extremum frame \<Rightarrow> delta_row frame" where
  "add_deltas extrema =
     zip (map fst extrema)
       (map (\<lambda>(r, dv, dt). with_delta r dv dt)
          (zip (map snd extrema)
             (zip (diff (map (NH3 \<circ> snd) extrema)) (diff (map (Time \<circ> snd) extrema)))))"

text \<open>\<^verbatim>\<open>pd.Timedelta.total_seconds(t)\<close> of a duration of \<open>t\<close> nanoseconds.\<close>

definition total_seconds :: "int \<Rightarrow> real" where
  "total_seconds t = real_of_int t / 1000000000"

text \<open>The list comprehension \<^verbatim>\<open>[pd.Timedelta.total_seconds(t)/3600 for t in ...]\<close>. A
  missing duration (NaT) is not a Timedelta: the call raises TypeError.\<close>

fun hours_list :: "int option list \<Rightarrow> py_error + real list" where
  "hours_list [] = Inr []"
| "hours_list (None # ts) = Inl TypeError"
| "hours_list (Some t # ts) =
     (case hours_list ts of Inl e \<Rightarrow> Inl e | Inr hs \<Rightarrow> Inr (total_seconds t / 3600 # hs))"

text \<open>Float division of a column entry by a non-negative number of hours. No test on
  the divisor precedes it: a zero divisor gives an infinity or NaN, and a missing
  dividend gives NaN.\<close>

fun truediv :: "real option \<Rightarrow> real \<Rightarrow> float64" where
  "truediv None h = NaN"
| "truediv (Some a) h =
     (if h = 0 then (if 0 < a then PosInf else if a < 0 then NegInf else NaN)
      else Finite (a / h))"

definition with_rate :: "delta_row \<Rightarrow> float64 \<Rightarrow> rate_row" where
  "with_rate r q =
     \<lparr>Time = Time r, NH3 = NH3 r, type = type r, Delta_NH3 = Delta_NH3 r,
      Delta_Time = Delta_Time r, NH3_per_Hour = q\<rparr>"

definition add_rates :: "delta_row frame \<Rightarrow> py_error + rate_row frame" where
  "add_rates extrema =
     (case hours_list (map (Delta_Time \<circ> snd) extrema) of
        Inl e \<Rightarrow> Inl e
      | Inr hs \<Rightarrow>
          Inr (zip (map fst extrema)
                 (map (\<lambda>(r, h). with_rate r (truediv (Delta_NH3 r) h))
                    (zip (map snd extrema) hs))))"

text \<open>The value of the variable \<^verbatim>\<open>extrema\<close>: the merged table, the table with the two
  difference columns, or the table with the rate column as well.\<close>

datatype table =
  Extrema "extremum frame"
| Deltas "delta_row frame"
| Rates "rate_row frame"

text \<open>The cell from the loop on (lines 249 to 261), on the merged table. An exception
  ends the cell; the variable keeps the value of its last assignment.\<close>

definition rate_steps :: "extremum frame \<Rightarrow> table \<times> py_error option" where
  "rate_steps merged =
     (case alternation_loop 0 (length merged) merged of
        (extrema, Some e) \<Rightarrow> (Extrema extrema, Some e)
      | (extrema, None) \<Rightarrow>
          (let extrema = add_deltas extrema in
           case drop_label extrema 0 of
             Inl e \<Rightarrow> (Deltas extrema, Some e)
           | Inr extrema \<Rightarrow>
               (case add_rates extrema of
                  Inl e \<Rightarrow> (Deltas extrema, Some e)
                | Inr extrema \<Rightarrow> (Rates extrema, None))))"

definition rate_analysis :: "extremum list \<Rightarrow> extremum list \<Rightarrow> table \<times> py_error option" where
  "rate_analysis mx mn = rate_steps (merge_ordered mx mn)"

section \<open>The two cells in order\<close>

text \<open>
  The Detect-peaks cell as a whole. After \<^verbatim>\<open>df.iloc[...]\<close> it assigns the \<^verbatim>\<open>type\<close> column
  with \<^verbatim>\<open>maxima.loc[:, 'type']='max'\<close> and then \<^verbatim>\<open>minima.loc[:, 'type']='min'\<close>; on a
  table without rows that assignment raises ValueError, so the cell ends with that
  exception when no maximum, or no minimum, was found.
\<close>

definition detect_cell ::
  "sample list \<Rightarrow> real \<Rightarrow> real \<Rightarrow> py_error + (extremum list \<times> extremum list)" where
  "detect_cell df max_cutoff min_cutoff =
     (if maxima_idx df max_cutoff = [] then Inl ValueError
      else if minima_idx df min_cutoff = [] then Inl ValueError
      else Inr (detect_maxima df max_cutoff, detect_minima df min_cutoff))"

text \<open>
  The Continue button runs the cells in order and stops at the first exception. The
  result is the exception of the Detect-peaks cell (the Rate-analysis cell is not run
  and \<^verbatim>\<open>extrema\<close> is not assigned), or else the value of \<^verbatim>\<open>extrema\<close> at the end of the
  Rate-analysis cell together with the exception of that cell, if any.
\<close>

definition run_pipeline ::
  "sample list \<Rightarrow> real \<Rightarrow> real \<Rightarrow> py_error + (table \<times> py_error option)" where
  "run_pipeline df max_cutoff min_cutoff =
     (case detect_cell df max_cutoff min_cutoff of
        Inl e \<Rightarrow> Inl e
      | Inr (maxima, minima) \<Rightarrow> Inr (rate_analysis maxima minima))"

section \<open>Properties of the alternation pass, stated on their own\<close>

text \<open>A sequence of tags alternates when no two neighbours are equal.\<close>

fun alternates :: "tag list \<Rightarrow> bool" where
  "alternates (a # b # ts) = (a \<noteq> b \<and> alternates (b # ts))"
| "alternates ts = True"

text \<open>The maximal runs of neighbouring rows with one tag, in order.\<close>

fun runs :: "extremum list \<Rightarrow> extremum list list" where
  "runs [] = []"
| "runs (a # rs) =
     (case runs rs of
        [] \<Rightarrow> [[a]]
      | g # gs \<Rightarrow> if type a = type (hd g) then (a # g) # gs else [a] # g # gs)"

text \<open>Two policies for thinning the runs: the first-seen row of each run, or the last.\<close>

definition keep_first :: "extremum list \<Rightarrow> extremum list" where
  "keep_first rows = map hd (runs rows)"

definition keep_last :: "extremum list \<Rightarrow> extremum list" where
  "keep_last rows = map last (runs rows)"

text \<open>The pure rebuild: of \<open>n\<close> rows, the row at position \<open>i\<close> stays when \<open>i = n - 1\<close> or
  its tag differs from the tag of the row at position \<open>i + 1\<close>; labels are the original
  positions.\<close>

definition rebuild :: "extremum list \<Rightarrow> extremum frame" where
  "rebuild rows =
     filter (\<lambda>(i, r). i = length rows - 1 \<or> type r \<noteq> type (rows ! (i + 1))) (reset_index rows)"

text \<open>The same, by recursion on the rows from position \<open>i\<close> on (used in the loop
  invariant).\<close>

fun keep_from :: "nat \<Rightarrow> extremum list \<Rightarrow> extremum frame" where
  "keep_from i [] = []"
| "keep_from i [a] = [(i, a)]"
| "keep_from i (a # b # rs) =
     (if type a = type b then keep_from (Suc i) (b # rs) else (i, a) # keep_from (Suc i) (b # rs))"

section \<open>Properties of the rate table, stated on their own\<close>

text \<open>The interval between a retained extremum \<open>p\<close> and the next retained extremum \<open>c\<close>:
  the row of \<open>c\<close> with the value change, the time change and the change per hour.\<close>

definition interval_row :: "extremum \<Rightarrow> extremum \<Rightarrow> rate_row" where
  "interval_row p c =
     \<lparr>Time = Time c, NH3 = NH3 c, type = type c,
      Delta_NH3 = Some (NH3 c - NH3 p), Delta_Time = Some (Time c - Time p),
      NH3_per_Hour = truediv (Some (NH3 c - NH3 p)) (total_seconds (Time c - Time p) / 3600)\<rparr>"

text \<open>The difference columns and the rate column of the rows that follow a row \<open>p\<close>, by
  recursion on the table (used in the proofs).\<close>

fun deltas_after :: "extremum \<Rightarrow> extremum frame \<Rightarrow> delta_row frame" where
  "deltas_after p [] = []"
| "deltas_after p ((l, r) # fr) =
     (l, with_delta r (Some (NH3 r - NH3 p)) (Some (Time r - Time p))) # deltas_after r fr"

fun rates_after :: "extremum \<Rightarrow> extremum frame \<Rightarrow> rate_row frame" where
  "rates_after p [] = []"
| "rates_after p ((l, r) # fr) = (l, interval_row p r) # rates_after r fr"

section \<open>The detection contract, stated on its own\<close>

text \<open>
  A flat peak from \<open>l\<close> to \<open>r\<close>: an interior stretch of equal samples with a lower sample
  directly before and directly after it. A local peak is the middle (rounded down) of a
  flat peak. The valley on one side of a peak of height \<open>h\<close> is the lowest sample among
  those met walking away from the peak before the first sample higher than \<open>h\<close>; the
  topographic prominence is the height of the peak above the higher of its two valleys.
\<close>

definition flat_peak :: "real list \<Rightarrow> nat \<Rightarrow> nat \<Rightarrow> bool" where
  "flat_peak x l r =
     (0 < l \<and> l \<le> r \<and> r + 1 < length x \<and> x ! (l - 1) < x ! l \<and>
      (\<forall>k \<in> {l..r}. x ! l = x ! k) \<and> x ! (r + 1) < x ! l)"

definition local_peak :: "real list \<Rightarrow> nat \<Rightarrow> bool" where
  "local_peak x i =
     (\<exists>l \<in> {0..<length x}. \<exists>r \<in> {0..<length x}. flat_peak x l r \<and> i = (l + r) div 2)"

definition valley :: "real \<Rightarrow> real list \<Rightarrow> real" where
  "valley h vs = Min (insert h (set (takeWhile (\<lambda>v. v \<le> h) vs)))"

definition topographic_prominence :: "real list \<Rightarrow> nat \<Rightarrow> real" where
  "topographic_prominence x i =
     x ! i - max (valley (x ! i) (rev (take i x))) (valley (x ! i) (drop (Suc i) x))"

section \<open>The alternation loop\<close>

lemma loc_append_fresh:
  "i \<notin> fst ` set pre \<Longrightarrow> loc (pre @ fr) i = loc fr i"
  by (induction pre) auto

lemma filter_fresh:
  "i \<notin> fst ` set pre \<Longrightarrow> filter (\<lambda>(l, r). l \<noteq> i) pre = pre"
  by (induction pre) auto

lemma zip_upt_Cons: "zip [i..<i + Suc n] (a # rs) = (i, a) # zip [Suc i..<Suc i + n] rs"
  by (simp add: upt_conv_Cons)

lemma fst_zip_upt: "length rs = n \<Longrightarrow> fst ` set (zip [i..<i + n] rs) = {i..<i + n}"
  by (metis atLeastLessThan_upt diff_add_inverse length_upt  map_fst_zip set_map)

lemma loop_drop:
  "i + 1 < imax \<Longrightarrow> loc ex i = Inr a \<Longrightarrow> loc ex (Suc i) = Inr b \<Longrightarrow> type a = type b \<Longrightarrow>
   drop_label ex i = Inr ex' \<Longrightarrow> alternation_loop i imax ex = alternation_loop (Suc i) imax ex'"
  by (subst alternation_loop.simps) simp

lemma loop_keep:
  "i + 1 < imax \<Longrightarrow> loc ex i = Inr a \<Longrightarrow> loc ex (Suc i) = Inr b \<Longrightarrow> type a \<noteq> type b \<Longrightarrow>
   alternation_loop i imax ex = alternation_loop (Suc i) imax ex"
  by (subst alternation_loop.simps) simp

lemma loop_exit: "\<not> i + 1 < imax \<Longrightarrow> alternation_loop i imax ex = (ex, None)"
  by (subst alternation_loop.simps) simp

lemma compared_drop:
  "i + 1 < imax \<Longrightarrow> loc ex i = Inr a \<Longrightarrow> loc ex (Suc i) = Inr b \<Longrightarrow> type a = type b \<Longrightarrow>
   drop_label ex i = Inr ex' \<Longrightarrow>
   alternation_compared i imax ex = ((i, a), (Suc i, b)) # alternation_compared (Suc i) imax ex'"
  by (subst alternation_compared.simps) simp

lemma compared_keep:
  "i + 1 < imax \<Longrightarrow> loc ex i = Inr a \<Longrightarrow> loc ex (Suc i) = Inr b \<Longrightarrow> type a \<noteq> type b \<Longrightarrow>
   alternation_compared i imax ex = ((i, a), (Suc i, b)) # alternation_compared (Suc i) imax ex"
  by (subst alternation_compared.simps) simp

lemma compared_exit: "\<not> i + 1 < imax \<Longrightarrow> alternation_compared i imax ex = []"
  by (subst alternation_compared.simps) simp

text \<open>The state of the loop at the head of iteration \<open>i\<close>: the rows already passed
  (labels below \<open>i\<close>), followed by the untouched rows \<open>i, i+1, ...\<close> under their
  original labels.\<close>

lemma loop_head_facts:
  fixes pre :: "extremum frame" and a b :: extremum and rs :: "extremum list" and i :: nat
  assumes pre: "\<forall>l \<in> fst ` set pre. l < i"
  defines "rest \<equiv> zip [Suc i..<Suc i + length (b # rs)] (b # rs)"
  shows "zip [i..<i + length (a # b # rs)] (a # b # rs) = (i, a) # rest"
    and "loc (pre @ (i, a) # rest) i = Inr a"
    and "loc (pre @ (i, a) # rest) (Suc i) = Inr b"
    and "drop_label (pre @ (i, a) # rest) i = Inr (pre @ rest)"
proof -
  have fresh: "i \<notin> fst ` set pre" and fresh1: "Suc i \<notin> fst ` set pre" using pre by auto
  show "zip [i..<i + length (a # b # rs)] (a # b # rs) = (i, a) # rest"
    unfolding rest_def using zip_upt_Cons[of i "length (b # rs)" a "b # rs"] by simp
  have z2: "rest = (Suc i, b) # zip [Suc (Suc i)..<Suc (Suc i) + length rs] rs"
    unfolding rest_def using zip_upt_Cons[of "Suc i" "length rs" b rs] by simp
  show "loc (pre @ (i, a) # rest) i = Inr a"
    using fresh by (simp add: loc_append_fresh)
  show "loc (pre @ (i, a) # rest) (Suc i) = Inr b"
    using fresh1 by (simp add: loc_append_fresh z2)
  have notin: "i \<notin> fst ` set rest"
    unfolding rest_def using fst_zip_upt[of "b # rs" "length (b # rs)" "Suc i"] by simp
  show "drop_label (pre @ (i, a) # rest) i = Inr (pre @ rest)"
    using fresh notin by (simp add: drop_label_def filter_fresh)
qed

lemma alternation_loop_inv:
  "\<forall>l \<in> fst ` set pre. l < i \<Longrightarrow>
   alternation_loop i (i + length rs) (pre @ zip [i..<i + length rs] rs)
     = (pre @ keep_from i rs, None)"
proof (induction i rs arbitrary: pre rule: keep_from.induct)
  case (1 i)
  then show ?case by (simp add: loop_exit)
next
  case (2 i a)
  then show ?case by (simp add: loop_exit)
next
  case (3 i a b rs)
  define rest where "rest = zip [Suc i..<Suc i + length (b # rs)] (b # rs)"
  define imax where "imax = Suc i + length (b # rs)"
  note hf = loop_head_facts[OF 3(3), where a = a and b = b and rs = rs, folded rest_def]
  have len: "i + length (a # b # rs) = imax" by (simp add: imax_def)
  have lt: "i + 1 < imax" by (simp add: imax_def)
  have z': "zip [i..<imax] (a # b # rs) = (i, a) # rest" using hf(1) unfolding len .
  show ?case
  proof (cases "type a = type b")
    case True
    have pre': "\<forall>l \<in> fst ` set pre. l < Suc i" using 3(3) by auto
    have "alternation_loop i imax (pre @ (i, a) # rest) = alternation_loop (Suc i) imax (pre @ rest)"
      using lt hf(2) hf(3) True hf(4) by (rule loop_drop)
    also have "\<dots> = (pre @ keep_from (Suc i) (b # rs), None)"
      unfolding rest_def imax_def using 3(1)[OF True pre'] .
    finally show ?thesis unfolding len z' using True by simp
  next
    case False
    have pre': "\<forall>l \<in> fst ` set (pre @ [(i, a)]). l < Suc i" using 3(3) by auto
    have "alternation_loop i imax (pre @ (i, a) # rest)
            = alternation_loop (Suc i) imax (pre @ (i, a) # rest)"
      using lt hf(2) hf(3) False by (rule loop_keep)
    also have "\<dots> = alternation_loop (Suc i) imax ((pre @ [(i, a)]) @ rest)" by simp
    also have "\<dots> = ((pre @ [(i, a)]) @ keep_from (Suc i) (b # rs), None)"
      unfolding rest_def imax_def using 3(2)[OF False pre'] .
    finally show ?thesis unfolding len z' using False by simp
  qed
qed

lemma alternation_loop_reset:
  "alternation_loop 0 (length rows) (reset_index rows) = (keep_from 0 rows, None)"
  using alternation_loop_inv[of "[]" 0 rows] by (simp add: reset_index_def)

lemma alternation_compared_inv:
  "\<forall>l \<in> fst ` set pre. l < i \<Longrightarrow>
   alternation_compared i (i + length rs) (pre @ zip [i..<i + length rs] rs)
     = zip (zip [i..<i + length rs] rs) (tl (zip [i..<i + length rs] rs))"
proof (induction i rs arbitrary: pre rule: keep_from.induct)
  case (1 i)
  then show ?case by (simp add: compared_exit)
next
  case (2 i a)
  then show ?case by (simp add: compared_exit)
next
  case (3 i a b rs)
  define rest where "rest = zip [Suc i..<Suc i + length (b # rs)] (b # rs)"
  define imax where "imax = Suc i + length (b # rs)"
  note hf = loop_head_facts[OF 3(3), where a = a and b = b and rs = rs, folded rest_def]
  have len: "i + length (a # b # rs) = imax" by (simp add: imax_def)
  have lt: "i + 1 < imax" by (simp add: imax_def)
  have z': "zip [i..<imax] (a # b # rs) = (i, a) # rest" using hf(1) unfolding len .
  have z2: "rest = (Suc i, b) # tl rest"
    unfolding rest_def using zip_upt_Cons[of "Suc i" "length rs" b rs] by simp
  have goal: "zip ((i, a) # rest) (tl ((i, a) # rest)) = ((i, a), (Suc i, b)) # zip rest (tl rest)"
    by (subst (2) z2) simp
  show ?case
  proof (cases "type a = type b")
    case True
    have pre': "\<forall>l \<in> fst ` set pre. l < Suc i" using 3(3) by auto
    have "alternation_compared i imax (pre @ (i, a) # rest)
           = ((i, a), (Suc i, b)) # alternation_compared (Suc i) imax (pre @ rest)"
      using lt hf(2) hf(3) True hf(4) by (rule compared_drop)
    also have "alternation_compared (Suc i) imax (pre @ rest) = zip rest (tl rest)"
      unfolding rest_def imax_def using 3(1)[OF True pre'] .
    finally show ?thesis unfolding len z' goal .
  next
    case False
    have pre': "\<forall>l \<in> fst ` set (pre @ [(i, a)]). l < Suc i" using 3(3) by auto
    have "alternation_compared i imax (pre @ (i, a) # rest)
            = ((i, a), (Suc i, b)) # alternation_compared (Suc i) imax (pre @ (i, a) # rest)"
      using lt hf(2) hf(3) False by (rule compared_keep)
    also have "alternation_compared (Suc i) imax (pre @ (i, a) # rest)
                 = alternation_compared (Suc i) imax ((pre @ [(i, a)]) @ rest)" by simp
    also have "\<dots> = zip rest (tl rest)"
      unfolding rest_def imax_def using 3(2)[OF False pre'] .
    finally show ?thesis unfolding len z' goal .
  qed
qed

lemma alternation_compared_reset:
  "alternation_compared 0 (length rows) (reset_index rows)
     = zip (reset_index rows) (tl (reset_index rows))"
  using alternation_compared_inv[of "[]" 0 rows] by (simp add: reset_index_def)

lemma keep_from_head:
  "keep_from i (b # rs) \<noteq> [] \<and> type (snd (hd (keep_from i (b # rs)))) = type b"
  by (induction i "b # rs" arbitrary: b rs rule: keep_from.induct) auto

lemma alternates_keep_from: "alternates (map (type \<circ> snd) (keep_from i rs))"
proof (induction i rs rule: keep_from.induct)
  case (3 i a b rs)
  obtain p ps where k: "keep_from (Suc i) (b # rs) = p # ps" and tp: "type (snd p) = type b"
    using keep_from_head[of "Suc i" b rs] by (cases "keep_from (Suc i) (b # rs)") auto
  show ?case using 3 k tp by auto
qed simp_all

lemma runs_Cons: "\<exists>g gs. runs (b # rs) = (b # g) # gs"
  by (induction rs arbitrary: b) (auto split: list.splits)

lemma keep_from_runs: "map snd (keep_from i rs) = map last (runs rs)"
proof (induction i rs rule: keep_from.induct)
  case (3 i a b rs)
  obtain g gs where r: "runs (b # rs) = (b # g) # gs" using runs_Cons by blast
  show ?case using 3 r by auto
qed simp_all

lemma keep_from_filter:
  "keep_from i rs =
     filter (\<lambda>(l, r). l = i + length rs - 1 \<or> type r \<noteq> type (rs ! (l - i + 1)))
       (zip [i..<i + length rs] rs)"
proof (induction i rs rule: keep_from.induct)
  case (1 i)
  then show ?case by simp
next
  case (2 i a)
  then show ?case by simp
next
  case (3 i a b rs)
  let ?rest = "zip [Suc i..<Suc i + length (b # rs)] (b # rs)"
  have z: "zip [i..<i + length (a # b # rs)] (a # b # rs) = (i, a) # ?rest"
    using zip_upt_Cons[of i "length (b # rs)" a "b # rs"] by simp
  have cong: "filter (\<lambda>(l, r). l = i + length (a # b # rs) - 1 \<or> type r \<noteq> type ((a # b # rs) ! (l - i + 1))) ?rest
            = filter (\<lambda>(l, r). l = Suc i + length (b # rs) - 1 \<or> type r \<noteq> type ((b # rs) ! (l - Suc i + 1))) ?rest"
  proof (rule filter_cong[OF refl])
    fix p assume "p \<in> set ?rest"
    then have "fst p \<in> fst ` set ?rest" by (rule imageI)
    then have "Suc i \<le> fst p" using fst_zip_upt[of "b # rs" "length (b # rs)" "Suc i"] by simp
    then have "fst p - i + 1 = Suc (fst p - Suc i + 1)" by simp
    then show "(case p of (l, r) \<Rightarrow> l = i + length (a # b # rs) - 1 \<or> type r \<noteq> type ((a # b # rs) ! (l - i + 1)))
             = (case p of (l, r) \<Rightarrow> l = Suc i + length (b # rs) - 1 \<or> type r \<noteq> type ((b # rs) ! (l - Suc i + 1)))"
      by (cases p) simp
  qed
  have IH: "keep_from (Suc i) (b # rs) = filter (\<lambda>(l, r). l = Suc i + length (b # rs) - 1 \<or> type r \<noteq> type ((b # rs) ! (l - Suc i + 1))) ?rest"
    using 3 by (cases "type a = type b") auto
  show ?case unfolding z by (simp only: filter.simps cong IH[symmetric]) simp
qed

lemma keep_from_rebuild: "keep_from 0 rows = rebuild rows"
  by (simp add: keep_from_filter rebuild_def reset_index_def)


lemma length_reset_index: "length (reset_index rows) = length rows"
  by (simp add: reset_index_def)

lemma merge_ordered_length:
  "length (merge_ordered mx mn) = length (foldr insert_row (mx @ mn) [])"
  by (simp add: merge_ordered_def length_reset_index)

lemma runs_concat: "concat (runs rows) = rows"
  by (induction rows) (auto split: list.splits)

section \<open>Claims about the alternation pass\<close>

text \<open>
  C1. For every merged table (rows numbered 0, 1, 2, ...), and so for every input series
  and every pair of thresholds, the alternation loop ends without an exception and no
  two neighbouring rows of its result carry the same type tag.
\<close>

theorem alternation_result_alternates:
  "snd (alternation_loop 0 (length rows) (reset_index rows)) = None \<and>
   alternates (map (type \<circ> snd) (fst (alternation_loop 0 (length rows) (reset_index rows)))) \<and>
   alternates (map (type \<circ> snd)
     (fst (alternation_loop 0 (length (merge_ordered (detect_maxima series hi) (detect_minima series lo)))
            (merge_ordered (detect_maxima series hi) (detect_minima series lo)))))"
proof -
  have gen: "alternates (map (type \<circ> snd) (fst (alternation_loop 0 (length rs) (reset_index rs))))"
    for rs
    by (simp only: alternation_loop_reset fst_conv alternates_keep_from)
  have "alternates (map (type \<circ> snd)
     (fst (alternation_loop 0 (length (merge_ordered mx mn)) (merge_ordered mx mn))))" for mx mn
    unfolding merge_ordered_length using gen[of "foldr insert_row (mx @ mn) []"]
    by (simp only: merge_ordered_def)
  then show ?thesis using gen[of rows] by (simp add: alternation_loop_reset)
qed

theorem alternation_result_alternates_witness:
  "fst (alternation_loop 0 3 (reset_index
      [\<lparr>Time = 0, NH3 = 5, type = Tmax\<rparr>, \<lparr>Time = 1, NH3 = 6, type = Tmax\<rparr>,
       \<lparr>Time = 2, NH3 = 1, type = Tmin\<rparr>]))
    = [(1, \<lparr>Time = 1, NH3 = 6, type = Tmax\<rparr>), (2, \<lparr>Time = 2, NH3 = 1, type = Tmin\<rparr>)] \<and>
   alternates (map (type \<circ> snd) (fst (alternation_loop 0 3 (reset_index
      [\<lparr>Time = 0, NH3 = 5, type = Tmax\<rparr>, \<lparr>Time = 1, NH3 = 6, type = Tmax\<rparr>,
       \<lparr>Time = 2, NH3 = 1, type = Tmin\<rparr>]))))"
  using alternation_result_alternates
    [of "[\<lparr>Time = 0, NH3 = 5, type = Tmax\<rparr>, \<lparr>Time = 1, NH3 = 6, type = Tmax\<rparr>,
          \<lparr>Time = 2, NH3 = 1, type = Tmin\<rparr>]"]
  by (simp add: alternation_loop.simps reset_index_def drop_label_def numeral_3_eq_3)

text \<open>
  C2 as stated (first-seen policy) fails: of two neighbouring maxima the loop deletes
  the first and keeps the second.
\<close>

theorem first_seen_policy_counterexample:
  "map snd (fst (alternation_loop 0
       (length [\<lparr>Time = 0, NH3 = 5, type = Tmax\<rparr>, \<lparr>Time = 1, NH3 = 6, type = Tmax\<rparr>])
       (reset_index [\<lparr>Time = 0, NH3 = 5, type = Tmax\<rparr>, \<lparr>Time = 1, NH3 = 6, type = Tmax\<rparr>])))
   \<noteq> keep_first [\<lparr>Time = 0, NH3 = 5, type = Tmax\<rparr>, \<lparr>Time = 1, NH3 = 6, type = Tmax\<rparr>]"
  by (simp add: alternation_loop.simps reset_index_def drop_label_def keep_first_def)

text \<open>
  C2, amended. For every merged table the loop, in one pass from left to right, keeps of
  each run of neighbouring rows with one type tag the last row and deletes the earlier
  ones.
\<close>

theorem alternation_keeps_last_of_run:
  "alternation_loop 0 (length rows) (reset_index rows)
     = (fst (alternation_loop 0 (length rows) (reset_index rows)), None) \<and>
   map snd (fst (alternation_loop 0 (length rows) (reset_index rows))) = keep_last rows"
  by (simp add: alternation_loop_reset keep_from_runs keep_last_def)

theorem alternation_keeps_last_of_run_witness:
  "map snd (fst (alternation_loop 0 2
       (reset_index [\<lparr>Time = 0, NH3 = 5, type = Tmax\<rparr>, \<lparr>Time = 1, NH3 = 6, type = Tmax\<rparr>])))
   = [\<lparr>Time = 1, NH3 = 6, type = Tmax\<rparr>]"
  using alternation_keeps_last_of_run
    [of "[\<lparr>Time = 0, NH3 = 5, type = Tmax\<rparr>, \<lparr>Time = 1, NH3 = 6, type = Tmax\<rparr>]"]
  by (simp add: keep_last_def numeral_2_eq_2)

text \<open>
  C10. The loop that mutates the table in place computes the pure rebuild: of \<open>n\<close> rows,
  the row at original position \<open>i\<close> survives if and only if \<open>i = n - 1\<close> or its tag differs
  from the tag of the row at original position \<open>i + 1\<close>. The loop raises no KeyError
  (every label it reads is still present), and the pairs it compares are exactly the
  original neighbours \<open>(i, i + 1)\<close>, each once, in order.
\<close>

theorem alternation_loop_is_rebuild:
  "alternation_loop 0 (length rows) (reset_index rows) = (rebuild rows, None) \<and>
   alternation_compared 0 (length rows) (reset_index rows)
     = zip (reset_index rows) (tl (reset_index rows))"
  by (simp add: alternation_loop_reset keep_from_rebuild alternation_compared_reset)

theorem alternation_loop_is_rebuild_witness:
  "alternation_loop 0 3 (reset_index
      [\<lparr>Time = 0, NH3 = 5, type = Tmax\<rparr>, \<lparr>Time = 1, NH3 = 6, type = Tmax\<rparr>,
       \<lparr>Time = 2, NH3 = 1, type = Tmin\<rparr>])
    = ([(1, \<lparr>Time = 1, NH3 = 6, type = Tmax\<rparr>), (2, \<lparr>Time = 2, NH3 = 1, type = Tmin\<rparr>)], None) \<and>
   alternation_compared 0 3 (reset_index
      [\<lparr>Time = 0, NH3 = 5, type = Tmax\<rparr>, \<lparr>Time = 1, NH3 = 6, type = Tmax\<rparr>,
       \<lparr>Time = 2, NH3 = 1, type = Tmin\<rparr>])
    = [((0, \<lparr>Time = 0, NH3 = 5, type = Tmax\<rparr>), (1, \<lparr>Time = 1, NH3 = 6, type = Tmax\<rparr>)),
       ((1, \<lparr>Time = 1, NH3 = 6, type = Tmax\<rparr>), (2, \<lparr>Time = 2, NH3 = 1, type = Tmin\<rparr>))]"
  using alternation_loop_is_rebuild
    [of "[\<lparr>Time = 0, NH3 = 5, type = Tmax\<rparr>, \<lparr>Time = 1, NH3 = 6, type = Tmax\<rparr>,
          \<lparr>Time = 2, NH3 = 1, type = Tmin\<rparr>]"]
  by (simp add: rebuild_def reset_index_def numeral_3_eq_3 numeral_2_eq_2)


section \<open>The rate computation\<close>

lemma deltas_after_zip:
  "zip (map fst fr)
     (map (\<lambda>(r, dv, dt). with_delta r dv dt)
        (zip (map snd fr)
           (zip (diff_prev (NH3 p) (map (NH3 \<circ> snd) fr))
                (diff_prev (Time p) (map (Time \<circ> snd) fr)))))
   = deltas_after p fr"
  by (induction fr arbitrary: p) auto

lemma add_deltas_Nil: "add_deltas [] = []"
  by (simp add: add_deltas_def)

lemma add_deltas_Cons:
  "add_deltas ((l, r) # fr) = (l, with_delta r None None) # deltas_after r fr"
  using deltas_after_zip[of fr r] by (simp add: add_deltas_def)

lemma add_rates_deltas_after: "add_rates (deltas_after p fr) = Inr (rates_after p fr)"
proof -
  have h: "hours_list (map (Delta_Time \<circ> snd) (deltas_after p fr))
             = Inr (map (\<lambda>(l, r). total_seconds (the (Delta_Time r)) / 3600) (deltas_after p fr))"
    by (induction fr arbitrary: p) (auto simp: with_delta_def)
  have z: "zip (map fst (deltas_after p fr))
             (map (\<lambda>(r, h). with_rate r (truediv (Delta_NH3 r) h))
                (zip (map snd (deltas_after p fr))
                   (map (\<lambda>(l, r). total_seconds (the (Delta_Time r)) / 3600) (deltas_after p fr))))
           = rates_after p fr"
    by (induction fr arbitrary: p) (auto simp: with_delta_def with_rate_def interval_row_def)
  show ?thesis by (simp add: add_rates_def h z)
qed

lemma rates_after_fst: "map fst (rates_after p fr) = map fst fr"
  by (induction fr arbitrary: p) auto

lemma rates_after_snd:
  "map snd (rates_after p fr) = map (\<lambda>(p, c). interval_row p c) (zip (p # map snd fr) (map snd fr))"
  by (induction fr arbitrary: p) auto

lemma deltas_after_snd:
  "map snd (deltas_after p fr)
     = map (\<lambda>(p, c). with_delta c (Some (NH3 c - NH3 p)) (Some (Time c - Time p)))
         (zip (p # map snd fr) (map snd fr))"
  by (induction fr arbitrary: p) auto

lemma keep_from_label_ge: "(l, r) \<in> set (keep_from i rs) \<Longrightarrow> i \<le> l"
  by (induction i rs rule: keep_from.induct) (auto split: if_splits)

lemma deltas_after_fst: "map fst (deltas_after p fr) = map fst fr"
  by (induction fr arbitrary: p) auto

lemma add_deltas_fst: "map fst (add_deltas fr) = map fst fr"
proof (cases fr)
  case Nil
  then show ?thesis by (simp add: add_deltas_Nil)
next
  case (Cons q fr')
  then show ?thesis by (cases q) (simp add: add_deltas_Cons deltas_after_fst)
qed

lemma keep_from_0:
  "(\<exists>a rest. keep_from 0 rows = (0, a) # rest \<and> 0 \<notin> fst ` set rest) \<or>
   0 \<notin> fst ` set (keep_from 0 rows)"
proof (cases rows)
  case Nil
  then show ?thesis by simp
next
  case (Cons a rs)
  show ?thesis
  proof (cases rs)
    case Nil
    then show ?thesis using Cons by simp
  next
    case (Cons b rs')
    have "0 \<notin> fst ` set (keep_from (Suc 0) (b # rs'))"
      using keep_from_label_ge[of 0 _ "Suc 0" "b # rs'"] by auto
    then show ?thesis using Cons \<open>rows = a # rs\<close> by auto
  qed
qed

lemma rate_steps_fails:
  assumes "0 \<notin> fst ` set (keep_from 0 rows)"
  shows "rate_steps (reset_index rows) = (Deltas (add_deltas (keep_from 0 rows)), Some KeyError)"
proof -
  have "drop_label (add_deltas (keep_from 0 rows)) 0 = Inl KeyError"
    using assms by (simp add: drop_label_def add_deltas_fst)
  then show ?thesis
    by (simp add: rate_steps_def length_reset_index alternation_loop_reset)
qed

lemma rate_steps_succeeds:
  assumes "keep_from 0 rows = (0, a) # rest" and "0 \<notin> fst ` set rest"
  shows "rate_steps (reset_index rows) = (Rates (rates_after a rest), None)"
proof -
  have "0 \<notin> fst ` set (deltas_after a rest)"
    using assms(2) deltas_after_fst[of a rest] by (metis set_map)
  then have "filter (\<lambda>(l, r). l \<noteq> 0) (deltas_after a rest) = deltas_after a rest"
    by (rule filter_fresh)
  then have "drop_label (add_deltas (keep_from 0 rows)) 0 = Inr (deltas_after a rest)"
    by (simp add: assms(1) add_deltas_Cons drop_label_def)
  then show ?thesis
    by (simp add: rate_steps_def length_reset_index alternation_loop_reset add_rates_deltas_after)
qed


lemma loc_KeyError: "0 \<notin> fst ` set fr \<Longrightarrow> loc fr 0 = Inl KeyError"
  by (induction fr) auto

lemma rates_after_defined:
  "list_all (\<lambda>(l, r). Delta_NH3 r \<noteq> None \<and> Delta_Time r \<noteq> None) (rates_after p fr)"
  by (induction fr arbitrary: p) (auto simp: interval_row_def)

lemma rates_after_rows:
  "map (\<lambda>(l, r). (l, Time r, NH3 r, type r)) (rates_after p fr)
     = map (\<lambda>(l, r). (l, Time r, NH3 r, type r)) fr"
  by (induction fr arbitrary: p) (auto simp: interval_row_def)

lemma rate_steps_table:
  assumes "rate_steps (reset_index rows) = (Rates tbl, None)"
  obtains a rest where "keep_from 0 rows = (0, a) # rest" and "tbl = rates_after a rest"
proof -
  from keep_from_0[of rows] show ?thesis
  proof
    assume "\<exists>a rest. keep_from 0 rows = (0, a) # rest \<and> 0 \<notin> fst ` set rest"
    then obtain a rest where k: "keep_from 0 rows = (0, a) # rest" and n: "0 \<notin> fst ` set rest"
      by blast
    have "tbl = rates_after a rest" using rate_steps_succeeds[OF k n] assms by simp
    then show ?thesis using k that by blast
  next
    assume "0 \<notin> fst ` set (keep_from 0 rows)"
    then show ?thesis using rate_steps_fails[of rows] assms by simp
  qed
qed

text \<open>The cell ends in one of two ways: with a rate table, or with the KeyError of
  \<^verbatim>\<open>drop(0)\<close>. The loop raises nothing and no missing duration reaches
  \<^verbatim>\<open>total_seconds\<close>.\<close>

lemma rate_steps_outcomes:
  "(\<exists>tbl. rate_steps (reset_index rows) = (Rates tbl, None)) \<or>
   (\<exists>d. rate_steps (reset_index rows) = (Deltas d, Some KeyError))"
proof -
  from keep_from_0[of rows] show ?thesis
  proof
    assume "\<exists>a rest. keep_from 0 rows = (0, a) # rest \<and> 0 \<notin> fst ` set rest"
    then obtain a rest where "keep_from 0 rows = (0, a) # rest" and "0 \<notin> fst ` set rest"
      by blast
    then show ?thesis using rate_steps_succeeds by blast
  next
    assume "0 \<notin> fst ` set (keep_from 0 rows)"
    then show ?thesis using rate_steps_fails by blast
  qed
qed

section \<open>Claims about the rate table\<close>

text \<open>
  C3. The claim: every retained extremum except the first gets Delta_NH3, Delta_Time and
  the rate NH3/Hour = Delta_NH3 / (Delta_Time in seconds / 3600). For the hourly series
  1, 5, 3, 6, 1, 3 with thresholds 4 and 2.5 the retained extrema are the maximum 6
  (label 1) and the minimum 1 (label 2). The minimum is not the first retained
  extremum and gets its differences, - 5 over one hour; but \<^verbatim>\<open>extrema.drop(0)\<close> raises
  KeyError before the NH3/Hour column is computed, so the table the cell leaves has no
  rate for it.
\<close>

theorem no_rate_after_equal_front:
  "detect_cell
     [\<lparr>Time = 0, NH3 = 1\<rparr>,
      \<lparr>Time = 3600000000000, NH3 = 5\<rparr>,
      \<lparr>Time = 7200000000000, NH3 = 3\<rparr>,
      \<lparr>Time = 10800000000000, NH3 = 6\<rparr>,
      \<lparr>Time = 14400000000000, NH3 = 1\<rparr>,
      \<lparr>Time = 18000000000000, NH3 = 3\<rparr>] 4 (5 / 2)
     = Inr ([\<lparr>Time = 3600000000000, NH3 = 5, type = Tmax\<rparr>,
               \<lparr>Time = 10800000000000, NH3 = 6, type = Tmax\<rparr>],
            [\<lparr>Time = 14400000000000, NH3 = 1, type = Tmin\<rparr>]) \<and>
   run_pipeline
     [\<lparr>Time = 0, NH3 = 1\<rparr>,
      \<lparr>Time = 3600000000000, NH3 = 5\<rparr>,
      \<lparr>Time = 7200000000000, NH3 = 3\<rparr>,
      \<lparr>Time = 10800000000000, NH3 = 6\<rparr>,
      \<lparr>Time = 14400000000000, NH3 = 1\<rparr>,
      \<lparr>Time = 18000000000000, NH3 = 3\<rparr>] 4 (5 / 2)
     = Inr (Deltas
              [(1, \<lparr>Time = 10800000000000, NH3 = 6, type = Tmax, Delta_NH3 = None, Delta_Time = None\<rparr>),
               (2, \<lparr>Time = 14400000000000, NH3 = 1, type = Tmin, Delta_NH3 = Some (- 5),
                    Delta_Time = Some 3600000000000\<rparr>)],
            Some KeyError)"
proof -
  have mx: "local_maxima_1d [1, 5, 3, 6, 1, 3 :: real] = [1, 3]"
    by (simp add: local_maxima_1d_def local_maxima_from.simps plateau_end.simps)
  have mn: "local_maxima_1d [- 1, - 5, - 3, - 6, - 1, - 3 :: real] = [2, 4]"
    by (simp add: local_maxima_1d_def local_maxima_from.simps plateau_end.simps)
  have imx: "maxima_idx
     [\<lparr>Time = 0, NH3 = 1\<rparr>,
      \<lparr>Time = 3600000000000, NH3 = 5\<rparr>,
      \<lparr>Time = 7200000000000, NH3 = 3\<rparr>,
      \<lparr>Time = 10800000000000, NH3 = 6\<rparr>,
      \<lparr>Time = 14400000000000, NH3 = 1\<rparr>,
      \<lparr>Time = 18000000000000, NH3 = 3\<rparr>] 4 = [1, 3]"
    by (simp add: maxima_idx_def find_peaks_def mx peak_prominence_def eval_nat_numeral)
  have imn: "minima_idx
     [\<lparr>Time = 0, NH3 = 1\<rparr>,
      \<lparr>Time = 3600000000000, NH3 = 5\<rparr>,
      \<lparr>Time = 7200000000000, NH3 = 3\<rparr>,
      \<lparr>Time = 10800000000000, NH3 = 6\<rparr>,
      \<lparr>Time = 14400000000000, NH3 = 1\<rparr>,
      \<lparr>Time = 18000000000000, NH3 = 3\<rparr>] (5 / 2) = [4]"
    by (simp add: minima_idx_def find_peaks_def mn peak_prominence_def eval_nat_numeral)
  have dc: "detect_cell
     [\<lparr>Time = 0, NH3 = 1\<rparr>,
      \<lparr>Time = 3600000000000, NH3 = 5\<rparr>,
      \<lparr>Time = 7200000000000, NH3 = 3\<rparr>,
      \<lparr>Time = 10800000000000, NH3 = 6\<rparr>,
      \<lparr>Time = 14400000000000, NH3 = 1\<rparr>,
      \<lparr>Time = 18000000000000, NH3 = 3\<rparr>] 4 (5 / 2)
     = Inr ([\<lparr>Time = 3600000000000, NH3 = 5, type = Tmax\<rparr>,
               \<lparr>Time = 10800000000000, NH3 = 6, type = Tmax\<rparr>],
            [\<lparr>Time = 14400000000000, NH3 = 1, type = Tmin\<rparr>])"
    by (simp add: detect_cell_def detect_maxima_def detect_minima_def imx imn tagged_def
        eval_nat_numeral)
  have ra: "rate_analysis
              [\<lparr>Time = 3600000000000, NH3 = 5, type = Tmax\<rparr>,
               \<lparr>Time = 10800000000000, NH3 = 6, type = Tmax\<rparr>]
              [\<lparr>Time = 14400000000000, NH3 = 1, type = Tmin\<rparr>]
     = (Deltas
              [(1, \<lparr>Time = 10800000000000, NH3 = 6, type = Tmax, Delta_NH3 = None, Delta_Time = None\<rparr>),
               (2, \<lparr>Time = 14400000000000, NH3 = 1, type = Tmin, Delta_NH3 = Some (- 5),
                    Delta_Time = Some 3600000000000\<rparr>)],
            Some KeyError)"
    by (simp add: rate_analysis_def merge_ordered_def key_le_def rate_steps_def reset_index_def
        alternation_loop.simps drop_label_def add_deltas_def with_delta_def eval_nat_numeral)
  show ?thesis using dc ra by (simp add: run_pipeline_def)
qed

text \<open>
  In the exact arithmetic of the model (reals for float64, unbounded integers for the
  64-bit nanosecond counts), every rate table the cell does produce lists, in order,
  the intervals between each retained extremum and the retained extremum before it.
\<close>

lemma rate_table_intervals:
  assumes "rate_steps (reset_index rows) = (Rates tbl, None)"
  shows "map snd tbl =
           map (\<lambda>(p, c). interval_row p c)
             (zip (map snd (fst (alternation_loop 0 (length rows) (reset_index rows))))
                  (tl (map snd (fst (alternation_loop 0 (length rows) (reset_index rows))))))"
proof -
  obtain a rest where k: "keep_from 0 rows = (0, a) # rest" and t: "tbl = rates_after a rest"
    using assms by (rule rate_steps_table)
  have "map snd tbl = map (\<lambda>(p, c). interval_row p c) (zip (a # map snd rest) (map snd rest))"
    unfolding t by (rule rates_after_snd)
  then show ?thesis by (simp add: alternation_loop_reset k)
qed

text \<open>
  C5. If the first two rows of the merged table carry the same type tag, the loop deletes
  the row labelled 0, and \<^verbatim>\<open>extrema.drop(0)\<close> then raises KeyError: the cell ends with
  that exception and the variable holds the table with the difference columns, not a
  rate table.
\<close>

theorem same_tag_at_front_fails:
  assumes "2 \<le> length rows" and "type (rows ! 0) = type (rows ! 1)"
  shows "loc (fst (alternation_loop 0 (length rows) (reset_index rows))) 0 = Inl KeyError \<and>
         rate_steps (reset_index rows)
           = (Deltas (add_deltas (fst (alternation_loop 0 (length rows) (reset_index rows)))),
              Some KeyError)"
proof -
  obtain a b rs where r: "rows = a # b # rs"
    using assms(1) by (cases rows; cases "tl rows") auto
  have eq: "type a = type b" using assms(2) r by simp
  have "0 \<notin> fst ` set (keep_from (Suc 0) (b # rs))"
    using keep_from_label_ge[of 0 _ "Suc 0" "b # rs"] by auto
  then have n: "0 \<notin> fst ` set (keep_from 0 rows)" using r eq by simp
  show ?thesis
    using rate_steps_fails[OF n] loc_KeyError[OF n] by (simp add: alternation_loop_reset)
qed

theorem same_tag_at_front_fails_witness:
  "rate_steps (reset_index
      [\<lparr>Time = 0, NH3 = 5, type = Tmax\<rparr>, \<lparr>Time = 3600000000000, NH3 = 6, type = Tmax\<rparr>,
       \<lparr>Time = 7200000000000, NH3 = 1, type = Tmin\<rparr>])
    = (Deltas
        [(1, \<lparr>Time = 3600000000000, NH3 = 6, type = Tmax, Delta_NH3 = None, Delta_Time = None\<rparr>),
         (2, \<lparr>Time = 7200000000000, NH3 = 1, type = Tmin, Delta_NH3 = Some (- 5),
              Delta_Time = Some 3600000000000\<rparr>)], Some KeyError)"
  using same_tag_at_front_fails
    [of "[\<lparr>Time = 0, NH3 = 5, type = Tmax\<rparr>, \<lparr>Time = 3600000000000, NH3 = 6, type = Tmax\<rparr>,
          \<lparr>Time = 7200000000000, NH3 = 1, type = Tmin\<rparr>]"]
  by (simp add: alternation_loop.simps reset_index_def drop_label_def add_deltas_def
      with_delta_def numeral_3_eq_3 numeral_2_eq_2)

text \<open>
  C8. The claim: after the cleanup and the differences, the first of the retained rows
  is dropped, so that every row of the resulting table has a predecessor. The cell
  drops the row labelled 0 instead (\<^verbatim>\<open>extrema.drop(0)\<close>, whose comment reads "First row
  has no previous value to divide"). For the hourly series 1, 5, 3, 6, 1, 5, 1 with
  thresholds 4 and 2.5 the maxima 5 and 6 are merged with no minimum between them, the
  loop deletes label 0, and \<^verbatim>\<open>drop(0)\<close> raises KeyError: the first retained row (label
  1, with its missing differences) is still in the table and no rate table is produced.
\<close>

theorem drop_0_misses_first_retained_row:
  "rate_analysis
     [\<lparr>Time = 3600000000000, NH3 = 5, type = Tmax\<rparr>,
               \<lparr>Time = 10800000000000, NH3 = 6, type = Tmax\<rparr>,
               \<lparr>Time = 18000000000000, NH3 = 5, type = Tmax\<rparr>]
     [\<lparr>Time = 14400000000000, NH3 = 1, type = Tmin\<rparr>]
     = (Deltas
              [(1, \<lparr>Time = 10800000000000, NH3 = 6, type = Tmax, Delta_NH3 = None, Delta_Time = None\<rparr>),
               (2, \<lparr>Time = 14400000000000, NH3 = 1, type = Tmin, Delta_NH3 = Some (- 5),
                    Delta_Time = Some 3600000000000\<rparr>),
               (3, \<lparr>Time = 18000000000000, NH3 = 5, type = Tmax, Delta_NH3 = Some 4,
                    Delta_Time = Some 3600000000000\<rparr>)],
        Some KeyError) \<and>
   detect_cell
     [\<lparr>Time = 0, NH3 = 1\<rparr>,
      \<lparr>Time = 3600000000000, NH3 = 5\<rparr>,
      \<lparr>Time = 7200000000000, NH3 = 3\<rparr>,
      \<lparr>Time = 10800000000000, NH3 = 6\<rparr>,
      \<lparr>Time = 14400000000000, NH3 = 1\<rparr>,
      \<lparr>Time = 18000000000000, NH3 = 5\<rparr>,
      \<lparr>Time = 21600000000000, NH3 = 1\<rparr>] 4 (5 / 2)
     = Inr ([\<lparr>Time = 3600000000000, NH3 = 5, type = Tmax\<rparr>,
               \<lparr>Time = 10800000000000, NH3 = 6, type = Tmax\<rparr>,
               \<lparr>Time = 18000000000000, NH3 = 5, type = Tmax\<rparr>],
            [\<lparr>Time = 14400000000000, NH3 = 1, type = Tmin\<rparr>]) \<and>
   run_pipeline
     [\<lparr>Time = 0, NH3 = 1\<rparr>,
      \<lparr>Time = 3600000000000, NH3 = 5\<rparr>,
      \<lparr>Time = 7200000000000, NH3 = 3\<rparr>,
      \<lparr>Time = 10800000000000, NH3 = 6\<rparr>,
      \<lparr>Time = 14400000000000, NH3 = 1\<rparr>,
      \<lparr>Time = 18000000000000, NH3 = 5\<rparr>,
      \<lparr>Time = 21600000000000, NH3 = 1\<rparr>] 4 (5 / 2)
     = Inr (Deltas
              [(1, \<lparr>Time = 10800000000000, NH3 = 6, type = Tmax, Delta_NH3 = None, Delta_Time = None\<rparr>),
               (2, \<lparr>Time = 14400000000000, NH3 = 1, type = Tmin, Delta_NH3 = Some (- 5),
                    Delta_Time = Some 3600000000000\<rparr>),
               (3, \<lparr>Time = 18000000000000, NH3 = 5, type = Tmax, Delta_NH3 = Some 4,
                    Delta_Time = Some 3600000000000\<rparr>)],
            Some KeyError)"
proof -
  have ra: "rate_analysis
     [\<lparr>Time = 3600000000000, NH3 = 5, type = Tmax\<rparr>,
               \<lparr>Time = 10800000000000, NH3 = 6, type = Tmax\<rparr>,
               \<lparr>Time = 18000000000000, NH3 = 5, type = Tmax\<rparr>]
     [\<lparr>Time = 14400000000000, NH3 = 1, type = Tmin\<rparr>]
     = (Deltas
              [(1, \<lparr>Time = 10800000000000, NH3 = 6, type = Tmax, Delta_NH3 = None, Delta_Time = None\<rparr>),
               (2, \<lparr>Time = 14400000000000, NH3 = 1, type = Tmin, Delta_NH3 = Some (- 5),
                    Delta_Time = Some 3600000000000\<rparr>),
               (3, \<lparr>Time = 18000000000000, NH3 = 5, type = Tmax, Delta_NH3 = Some 4,
                    Delta_Time = Some 3600000000000\<rparr>)],
        Some KeyError)"
    by (simp add: rate_analysis_def merge_ordered_def key_le_def rate_steps_def reset_index_def
        alternation_loop.simps drop_label_def add_deltas_def with_delta_def eval_nat_numeral)
  have mx: "local_maxima_1d [1, 5, 3, 6, 1, 5, 1 :: real] = [1, 3, 5]"
    by (simp add: local_maxima_1d_def local_maxima_from.simps plateau_end.simps)
  have mn: "local_maxima_1d [- 1, - 5, - 3, - 6, - 1, - 5, - 1 :: real] = [2, 4]"
    by (simp add: local_maxima_1d_def local_maxima_from.simps plateau_end.simps)
  have imx: "maxima_idx
     [\<lparr>Time = 0, NH3 = 1\<rparr>,
      \<lparr>Time = 3600000000000, NH3 = 5\<rparr>,
      \<lparr>Time = 7200000000000, NH3 = 3\<rparr>,
      \<lparr>Time = 10800000000000, NH3 = 6\<rparr>,
      \<lparr>Time = 14400000000000, NH3 = 1\<rparr>,
      \<lparr>Time = 18000000000000, NH3 = 5\<rparr>,
      \<lparr>Time = 21600000000000, NH3 = 1\<rparr>] 4 = [1, 3, 5]"
    by (simp add: maxima_idx_def find_peaks_def mx peak_prominence_def eval_nat_numeral)
  have imn: "minima_idx
     [\<lparr>Time = 0, NH3 = 1\<rparr>,
      \<lparr>Time = 3600000000000, NH3 = 5\<rparr>,
      \<lparr>Time = 7200000000000, NH3 = 3\<rparr>,
      \<lparr>Time = 10800000000000, NH3 = 6\<rparr>,
      \<lparr>Time = 14400000000000, NH3 = 1\<rparr>,
      \<lparr>Time = 18000000000000, NH3 = 5\<rparr>,
      \<lparr>Time = 21600000000000, NH3 = 1\<rparr>] (5 / 2) = [4]"
    by (simp add: minima_idx_def find_peaks_def mn peak_prominence_def eval_nat_numeral)
  have dc: "detect_cell
     [\<lparr>Time = 0, NH3 = 1\<rparr>,
      \<lparr>Time = 3600000000000, NH3 = 5\<rparr>,
      \<lparr>Time = 7200000000000, NH3 = 3\<rparr>,
      \<lparr>Time = 10800000000000, NH3 = 6\<rparr>,
      \<lparr>Time = 14400000000000, NH3 = 1\<rparr>,
      \<lparr>Time = 18000000000000, NH3 = 5\<rparr>,
      \<lparr>Time = 21600000000000, NH3 = 1\<rparr>] 4 (5 / 2)
     = Inr ([\<lparr>Time = 3600000000000, NH3 = 5, type = Tmax\<rparr>,
               \<lparr>Time = 10800000000000, NH3 = 6, type = Tmax\<rparr>,
               \<lparr>Time = 18000000000000, NH3 = 5, type = Tmax\<rparr>],
            [\<lparr>Time = 14400000000000, NH3 = 1, type = Tmin\<rparr>])"
    by (simp add: detect_cell_def detect_maxima_def detect_minima_def imx imn tagged_def
        eval_nat_numeral)
  show ?thesis using ra dc by (simp add: run_pipeline_def)
qed

text \<open>
  Whenever the cell produces a rate table, the first of the retained rows (label 0) is
  not in it, its rows are the other retained rows in order, and every row carries a
  Delta_NH3 and a Delta_Time that are not missing.
\<close>

lemma rate_table_rows_defined:
  assumes "rate_steps (reset_index rows) = (Rates tbl, None)"
  shows "map fst (fst (alternation_loop 0 (length rows) (reset_index rows))) = 0 # map fst tbl \<and>
         map (\<lambda>(l, r). (l, Time r, NH3 r, type r)) tbl
           = tl (map (\<lambda>(l, r). (l, Time r, NH3 r, type r))
                   (fst (alternation_loop 0 (length rows) (reset_index rows)))) \<and>
         list_all (\<lambda>(l, r). Delta_NH3 r \<noteq> None \<and> Delta_Time r \<noteq> None) tbl"
proof -
  obtain a rest where k: "keep_from 0 rows = (0, a) # rest" and t: "tbl = rates_after a rest"
    using assms by (rule rate_steps_table)
  show ?thesis
    unfolding t using rates_after_defined[of a rest]
    by (simp add: alternation_loop_reset k rates_after_fst rates_after_rows)
qed


lemma rate_table_rows_defined_example:
  "rate_steps (reset_index
      [\<lparr>Time = 0, NH3 = 5, type = Tmax\<rparr>, \<lparr>Time = 3600000000000, NH3 = 1, type = Tmin\<rparr>])
    = (Rates
        [(1, \<lparr>Time = 3600000000000, NH3 = 1, type = Tmin, Delta_NH3 = Some (- 4),
              Delta_Time = Some 3600000000000, NH3_per_Hour = Finite (- 4)\<rparr>)], None) \<and>
   map fst (fst (alternation_loop 0 2 (reset_index
      [\<lparr>Time = 0, NH3 = 5, type = Tmax\<rparr>, \<lparr>Time = 3600000000000, NH3 = 1, type = Tmin\<rparr>])))
    = [0, 1]"
proof -
  have h: "rate_steps (reset_index
      [\<lparr>Time = 0, NH3 = 5, type = Tmax\<rparr>, \<lparr>Time = 3600000000000, NH3 = 1, type = Tmin\<rparr>])
    = (Rates
        [(1, \<lparr>Time = 3600000000000, NH3 = 1, type = Tmin, Delta_NH3 = Some (- 4),
              Delta_Time = Some 3600000000000, NH3_per_Hour = Finite (- 4)\<rparr>)], None)"
    by (simp add: rate_steps_def reset_index_def alternation_loop.simps drop_label_def
        add_deltas_def add_rates_def with_delta_def with_rate_def total_seconds_def
        numeral_2_eq_2)
  show ?thesis
    using h rate_table_rows_defined[OF h] by (simp add: numeral_2_eq_2)
qed

text \<open>
  C6. A maximum and a minimum with one timestamp are both retained, the time difference
  of the second is zero, the number of hours is zero, and the division is carried out
  all the same: the cell ends without an exception and the rate is an infinity.
\<close>

theorem zero_time_delta_divides:
  "rate_analysis [\<lparr>Time = 3600000000000, NH3 = 5, type = Tmax\<rparr>]
                 [\<lparr>Time = 3600000000000, NH3 = 1, type = Tmin\<rparr>]
    = (Rates
        [(1, \<lparr>Time = 3600000000000, NH3 = 5, type = Tmax, Delta_NH3 = Some 4,
              Delta_Time = Some 0, NH3_per_Hour = PosInf\<rparr>)], None) \<and>
   total_seconds 0 / 3600 = 0"
  by (simp add: rate_analysis_def merge_ordered_def key_le_def rate_steps_def reset_index_def
      alternation_loop.simps drop_label_def add_deltas_def add_rates_def with_delta_def
      with_rate_def total_seconds_def numeral_2_eq_2)

text \<open>A series with a repeated timestamp reaches this table through detection.\<close>

theorem zero_time_delta_divides_witness:
  "detect_cell
     [\<lparr>Time = 0, NH3 = 2\<rparr>,
      \<lparr>Time = 3600000000000, NH3 = 5\<rparr>,
      \<lparr>Time = 3600000000000, NH3 = 1\<rparr>,
      \<lparr>Time = 7200000000000, NH3 = 2\<rparr>] 4 (5 / 2)
     = Inr ([\<lparr>Time = 3600000000000, NH3 = 5, type = Tmax\<rparr>],
            [\<lparr>Time = 3600000000000, NH3 = 1, type = Tmin\<rparr>]) \<and>
   run_pipeline
     [\<lparr>Time = 0, NH3 = 2\<rparr>,
      \<lparr>Time = 3600000000000, NH3 = 5\<rparr>,
      \<lparr>Time = 3600000000000, NH3 = 1\<rparr>,
      \<lparr>Time = 7200000000000, NH3 = 2\<rparr>] 4 (5 / 2)
     = Inr (Rates
              [(1, \<lparr>Time = 3600000000000, NH3 = 5, type = Tmax, Delta_NH3 = Some 4,
                    Delta_Time = Some 0, NH3_per_Hour = PosInf\<rparr>)], None)"
proof -
  have mx: "local_maxima_1d [2, 5, 1, 2 :: real] = [1]"
    by (simp add: local_maxima_1d_def local_maxima_from.simps plateau_end.simps)
  have mn: "local_maxima_1d [- 2, - 5, - 1, - 2 :: real] = [2]"
    by (simp add: local_maxima_1d_def local_maxima_from.simps plateau_end.simps)
  have imx: "maxima_idx
     [\<lparr>Time = 0, NH3 = 2\<rparr>,
      \<lparr>Time = 3600000000000, NH3 = 5\<rparr>,
      \<lparr>Time = 3600000000000, NH3 = 1\<rparr>,
      \<lparr>Time = 7200000000000, NH3 = 2\<rparr>] 4 = [1]"
    by (simp add: maxima_idx_def find_peaks_def mx peak_prominence_def)
  have imn: "minima_idx
     [\<lparr>Time = 0, NH3 = 2\<rparr>,
      \<lparr>Time = 3600000000000, NH3 = 5\<rparr>,
      \<lparr>Time = 3600000000000, NH3 = 1\<rparr>,
      \<lparr>Time = 7200000000000, NH3 = 2\<rparr>] (5 / 2) = [2]"
    by (simp add: minima_idx_def find_peaks_def mn peak_prominence_def)
  have dc: "detect_cell
     [\<lparr>Time = 0, NH3 = 2\<rparr>,
      \<lparr>Time = 3600000000000, NH3 = 5\<rparr>,
      \<lparr>Time = 3600000000000, NH3 = 1\<rparr>,
      \<lparr>Time = 7200000000000, NH3 = 2\<rparr>] 4 (5 / 2)
     = Inr ([\<lparr>Time = 3600000000000, NH3 = 5, type = Tmax\<rparr>],
            [\<lparr>Time = 3600000000000, NH3 = 1, type = Tmin\<rparr>])"
    by (simp add: detect_cell_def detect_maxima_def detect_minima_def imx imn tagged_def)
  show ?thesis
    using zero_time_delta_divides dc by (simp add: run_pipeline_def)
qed

section \<open>Claims about the whole pipeline\<close>

text \<open>
  When detection finds no maximum or no minimum, the run stops in the Detect-peaks cell:
  the series 1, 5, 1 has the maximum 5 and no minimum.
\<close>

lemma no_minimum_stops_pipeline:
  "run_pipeline
     [\<lparr>Time = 0, NH3 = 1\<rparr>, \<lparr>Time = 3600000000000, NH3 = 5\<rparr>,
      \<lparr>Time = 7200000000000, NH3 = 1\<rparr>] 4 (5 / 2)
     = Inl ValueError"
proof -
  have mx: "local_maxima_1d [1, 5, 1 :: real] = [1]"
    by (simp add: local_maxima_1d_def local_maxima_from.simps plateau_end.simps)
  have mn: "local_maxima_1d [- 1, - 5, - 1 :: real] = []"
    by (simp add: local_maxima_1d_def local_maxima_from.simps plateau_end.simps)
  show ?thesis
    by (simp add: run_pipeline_def detect_cell_def maxima_idx_def minima_idx_def find_peaks_def
        mx mn peak_prominence_def)
qed

text \<open>
  C7. For the series 1, 5, 1, 6, 1 (at timestamps of which the second, third and fourth
  ascend) with upper threshold 4 and lower threshold 2, detection yields exactly two
  maxima, 5 and 6, and exactly one minimum, 1; the merged table is max, min, max with
  the minimum between the maxima, and the alternation loop returns it unchanged.
\<close>

theorem example_series_detection:
  assumes "t1 < t2" and "t2 < t3"
  shows "detect_maxima
           [\<lparr>Time = t0, NH3 = 1\<rparr>, \<lparr>Time = t1, NH3 = 5\<rparr>, \<lparr>Time = t2, NH3 = 1\<rparr>,
            \<lparr>Time = t3, NH3 = 6\<rparr>, \<lparr>Time = t4, NH3 = 1\<rparr>] 4
           = [\<lparr>Time = t1, NH3 = 5, type = Tmax\<rparr>, \<lparr>Time = t3, NH3 = 6, type = Tmax\<rparr>] \<and>
         detect_minima
           [\<lparr>Time = t0, NH3 = 1\<rparr>, \<lparr>Time = t1, NH3 = 5\<rparr>, \<lparr>Time = t2, NH3 = 1\<rparr>,
            \<lparr>Time = t3, NH3 = 6\<rparr>, \<lparr>Time = t4, NH3 = 1\<rparr>] 2
           = [\<lparr>Time = t2, NH3 = 1, type = Tmin\<rparr>] \<and>
         merge_ordered
           [\<lparr>Time = t1, NH3 = 5, type = Tmax\<rparr>, \<lparr>Time = t3, NH3 = 6, type = Tmax\<rparr>]
           [\<lparr>Time = t2, NH3 = 1, type = Tmin\<rparr>]
           = [(0, \<lparr>Time = t1, NH3 = 5, type = Tmax\<rparr>), (1, \<lparr>Time = t2, NH3 = 1, type = Tmin\<rparr>),
              (2, \<lparr>Time = t3, NH3 = 6, type = Tmax\<rparr>)] \<and>
         alternation_loop 0 3
           [(0, \<lparr>Time = t1, NH3 = 5, type = Tmax\<rparr>), (1, \<lparr>Time = t2, NH3 = 1, type = Tmin\<rparr>),
            (2, \<lparr>Time = t3, NH3 = 6, type = Tmax\<rparr>)]
           = ([(0, \<lparr>Time = t1, NH3 = 5, type = Tmax\<rparr>), (1, \<lparr>Time = t2, NH3 = 1, type = Tmin\<rparr>),
               (2, \<lparr>Time = t3, NH3 = 6, type = Tmax\<rparr>)], None)"
proof -
  have mx: "local_maxima_1d [1, 5, 1, 6, 1 :: real] = [1, 3]"
    by (simp add: local_maxima_1d_def local_maxima_from.simps plateau_end.simps)
  have mn: "local_maxima_1d [- 1, - 5, - 1, - 6, - 1 :: real] = [2]"
    by (simp add: local_maxima_1d_def local_maxima_from.simps plateau_end.simps)
  have a: "detect_maxima
           [\<lparr>Time = t0, NH3 = 1\<rparr>, \<lparr>Time = t1, NH3 = 5\<rparr>, \<lparr>Time = t2, NH3 = 1\<rparr>,
            \<lparr>Time = t3, NH3 = 6\<rparr>, \<lparr>Time = t4, NH3 = 1\<rparr>] 4
           = [\<lparr>Time = t1, NH3 = 5, type = Tmax\<rparr>, \<lparr>Time = t3, NH3 = 6, type = Tmax\<rparr>]"
    by (simp add: detect_maxima_def maxima_idx_def find_peaks_def mx peak_prominence_def tagged_def
        numeral_3_eq_3)
  have b: "detect_minima
           [\<lparr>Time = t0, NH3 = 1\<rparr>, \<lparr>Time = t1, NH3 = 5\<rparr>, \<lparr>Time = t2, NH3 = 1\<rparr>,
            \<lparr>Time = t3, NH3 = 6\<rparr>, \<lparr>Time = t4, NH3 = 1\<rparr>] 2
           = [\<lparr>Time = t2, NH3 = 1, type = Tmin\<rparr>]"
    by (simp add: detect_minima_def minima_idx_def find_peaks_def mn peak_prominence_def tagged_def
        numeral_2_eq_2)
  have c: "merge_ordered
           [\<lparr>Time = t1, NH3 = 5, type = Tmax\<rparr>, \<lparr>Time = t3, NH3 = 6, type = Tmax\<rparr>]
           [\<lparr>Time = t2, NH3 = 1, type = Tmin\<rparr>]
           = [(0, \<lparr>Time = t1, NH3 = 5, type = Tmax\<rparr>), (1, \<lparr>Time = t2, NH3 = 1, type = Tmin\<rparr>),
              (2, \<lparr>Time = t3, NH3 = 6, type = Tmax\<rparr>)]"
    using assms by (simp add: merge_ordered_def key_le_def reset_index_def numeral_3_eq_3 numeral_2_eq_2)
  have d: "alternation_loop 0 3
           [(0, \<lparr>Time = t1, NH3 = 5, type = Tmax\<rparr>), (1, \<lparr>Time = t2, NH3 = 1, type = Tmin\<rparr>),
            (2, \<lparr>Time = t3, NH3 = 6, type = Tmax\<rparr>)]
           = ([(0, \<lparr>Time = t1, NH3 = 5, type = Tmax\<rparr>), (1, \<lparr>Time = t2, NH3 = 1, type = Tmin\<rparr>),
               (2, \<lparr>Time = t3, NH3 = 6, type = Tmax\<rparr>)], None)"
    by (simp add: alternation_loop.simps)
  show ?thesis using a b c d by simp
qed

theorem example_series_detection_witness:
  "detect_maxima
     [\<lparr>Time = 0, NH3 = 1\<rparr>, \<lparr>Time = 3600000000000, NH3 = 5\<rparr>,
      \<lparr>Time = 7200000000000, NH3 = 1\<rparr>, \<lparr>Time = 10800000000000, NH3 = 6\<rparr>,
      \<lparr>Time = 14400000000000, NH3 = 1\<rparr>] 4
     = [\<lparr>Time = 3600000000000, NH3 = 5, type = Tmax\<rparr>,
        \<lparr>Time = 10800000000000, NH3 = 6, type = Tmax\<rparr>] \<and>
   detect_minima
     [\<lparr>Time = 0, NH3 = 1\<rparr>, \<lparr>Time = 3600000000000, NH3 = 5\<rparr>,
      \<lparr>Time = 7200000000000, NH3 = 1\<rparr>, \<lparr>Time = 10800000000000, NH3 = 6\<rparr>,
      \<lparr>Time = 14400000000000, NH3 = 1\<rparr>] 2
     = [\<lparr>Time = 7200000000000, NH3 = 1, type = Tmin\<rparr>] \<and>
   merge_ordered
     [\<lparr>Time = 3600000000000, NH3 = 5, type = Tmax\<rparr>,
      \<lparr>Time = 10800000000000, NH3 = 6, type = Tmax\<rparr>]
     [\<lparr>Time = 7200000000000, NH3 = 1, type = Tmin\<rparr>]
     = [(0, \<lparr>Time = 3600000000000, NH3 = 5, type = Tmax\<rparr>),
        (1, \<lparr>Time = 7200000000000, NH3 = 1, type = Tmin\<rparr>),
        (2, \<lparr>Time = 10800000000000, NH3 = 6, type = Tmax\<rparr>)] \<and>
   alternation_loop 0 3
     [(0, \<lparr>Time = 3600000000000, NH3 = 5, type = Tmax\<rparr>),
      (1, \<lparr>Time = 7200000000000, NH3 = 1, type = Tmin\<rparr>),
      (2, \<lparr>Time = 10800000000000, NH3 = 6, type = Tmax\<rparr>)]
     = ([(0, \<lparr>Time = 3600000000000, NH3 = 5, type = Tmax\<rparr>),
         (1, \<lparr>Time = 7200000000000, NH3 = 1, type = Tmin\<rparr>),
         (2, \<lparr>Time = 10800000000000, NH3 = 6, type = Tmax\<rparr>)], None)"
  by (rule example_series_detection) simp_all


section \<open>The peak scan finds the local peaks\<close>

lemma base_min_Min: "base_min h m vs = Min (insert m (set (takeWhile (\<lambda>v. v \<le> h) vs)))"
proof (induction vs arbitrary: m)
  case Nil
  then show ?case by simp
next
  case (Cons v vs)
  show ?case
  proof (cases "v \<le> h")
    case True
    let ?S = "set (takeWhile (\<lambda>v. v \<le> h) vs)"
    have "base_min h m (v # vs) = Min (insert (if v < m then v else m) ?S)"
      using True Cons by simp
    also have "\<dots> = min (if v < m then v else m) (Min (insert (if v < m then v else m) ?S))"
      by simp
    also have "\<dots> = Min (insert m (insert v ?S))"
      by (cases "?S = {}") (auto simp: min_def)
    finally show ?thesis using True by simp
  next
    case False
    then show ?thesis by simp
  qed
qed

lemma peak_prominence_topographic:
  assumes "i < length x"
  shows "peak_prominence x i = topographic_prominence x i"
proof -
  have l: "rev (take (i + 1) x) = x ! i # rev (take i x)"
    using assms by (simp add: take_Suc_conv_app_nth)
  have r: "drop i x = x ! i # drop (Suc i) x"
    using assms by (simp add: Cons_nth_drop_Suc)
  show ?thesis
    unfolding peak_prominence_def topographic_prominence_def Let_def l r
    by (simp add: base_min_Min valley_def)
qed

lemma plateau_end_props:
  assumes "a < length x" and "\<forall>k. i \<le> k \<and> k < a \<longrightarrow> x ! i = x ! k"
  shows "a \<le> plateau_end x i a \<and> plateau_end x i a < length x \<and>
         (\<forall>k. i \<le> k \<and> k < plateau_end x i a \<longrightarrow> x ! i = x ! k) \<and>
         (x ! plateau_end x i a = x ! i \<longrightarrow> plateau_end x i a + 1 = length x)"
  using assms
proof (induction x i a rule: plateau_end.induct)
  case (1 x i a)
  show ?case
  proof (cases "a + 1 < length x \<and> x ! a = x ! i")
    case True
    have eq: "plateau_end x i a = plateau_end x i (a + 1)"
      using True by (subst plateau_end.simps) simp
    have ext: "\<forall>k. i \<le> k \<and> k < a + 1 \<longrightarrow> x ! i = x ! k"
    proof (intro allI impI)
      fix k assume k: "i \<le> k \<and> k < a + 1"
      show "x ! i = x ! k"
      proof (cases "k = a")
        case True
        then show ?thesis using \<open>a + 1 < length x \<and> x ! a = x ! i\<close> by simp
      next
        case False
        then have "k < a" using k by simp
        then show ?thesis using 1(3) k by blast
      qed
    qed
    have lt: "a + 1 < length x" using True by simp
    have IH: "a + 1 \<le> plateau_end x i (a + 1) \<and> plateau_end x i (a + 1) < length x \<and>
         (\<forall>k. i \<le> k \<and> k < plateau_end x i (a + 1) \<longrightarrow> x ! i = x ! k) \<and>
         (x ! plateau_end x i (a + 1) = x ! i \<longrightarrow> plateau_end x i (a + 1) + 1 = length x)"
      using 1(1)[OF True lt ext] .
    have "a \<le> plateau_end x i (a + 1)" using IH by simp
    then show ?thesis unfolding eq using IH by blast
  next
    case False
    have eq: "plateau_end x i a = a"
      using False by (subst plateau_end.simps) auto
    have "x ! a = x ! i \<longrightarrow> a + 1 = length x"
      using False 1(2) by (simp add: not_less) linarith
    then show ?thesis unfolding eq using 1(2,3) by blast
  qed
qed

lemma flat_peak_bounds: "flat_peak x l r \<Longrightarrow> 0 < l \<and> l \<le> r \<and> r + 1 < length x"
  by (simp add: flat_peak_def)

lemma flat_peak_rise: "flat_peak x l r \<Longrightarrow> x ! (l - 1) < x ! l"
  by (simp add: flat_peak_def)

lemma flat_peak_fall: "flat_peak x l r \<Longrightarrow> x ! (r + 1) < x ! l"
  by (simp add: flat_peak_def)

lemma flat_peak_flat: "flat_peak x l r \<Longrightarrow> l \<le> k \<Longrightarrow> k \<le> r \<Longrightarrow> x ! l = x ! k"
  unfolding flat_peak_def by (meson atLeastAtMost_iff)

lemma plateau_end_first:
  assumes "i + 1 < length x" and "e = plateau_end x i (i + 1)"
  shows "i + 1 \<le> e" and "e < length x"
    and "\<And>k. i \<le> k \<Longrightarrow> k < e \<Longrightarrow> x ! i = x ! k"
    and "x ! e = x ! i \<Longrightarrow> e + 1 = length x"
proof -
  have "\<forall>k. i \<le> k \<and> k < i + 1 \<longrightarrow> x ! i = x ! k"
  proof (intro allI impI)
    fix k assume "i \<le> k \<and> k < i + 1"
    then have "k = i" by simp
    then show "x ! i = x ! k" by simp
  qed
  from plateau_end_props[OF assms(1) this, folded assms(2)]
  have all: "i + 1 \<le> e \<and> e < length x \<and> (\<forall>k. i \<le> k \<and> k < e \<longrightarrow> x ! i = x ! k) \<and>
             (x ! e = x ! i \<longrightarrow> e + 1 = length x)" .
  show "i + 1 \<le> e" using all by blast
  show "e < length x" using all by blast
  show "\<And>k. i \<le> k \<Longrightarrow> k < e \<Longrightarrow> x ! i = x ! k" using all by blast
  show "x ! e = x ! i \<Longrightarrow> e + 1 = length x" using all by blast
qed

lemma maxima_step_peak:
  assumes i: "0 < i" "i + 1 < length x" and up: "x ! (i - 1) < x ! i"
    and e: "e = plateau_end x i (i + 1)" and down: "x ! e < x ! i"
  shows "(flat_peak x l r \<and> i \<le> l) \<longleftrightarrow> (l = i \<and> r = e - 1) \<or> (flat_peak x l r \<and> e + 1 \<le> l)"
proof -
  note pe = plateau_end_first[OF i(2) e]
  have own: "flat_peak x i (e - 1)"
  proof -
    have "\<forall>k \<in> {i..e - 1}. x ! i = x ! k"
    proof
      fix k assume "k \<in> {i..e - 1}"
      then have "i \<le> k" "k < e" using pe(1) by auto
      then show "x ! i = x ! k" by (rule pe(3))
    qed
    moreover have "e - 1 + 1 = e" using pe(1) by simp
    ultimately show ?thesis
      unfolding flat_peak_def using i(1) up pe(1) pe(2) down by simp
  qed
  have uniq: "r' = e - 1" if fp: "flat_peak x i r'" for r'
  proof (rule ccontr)
    assume ne: "r' \<noteq> e - 1"
    have b: "i \<le> r'" using flat_peak_bounds[OF fp] by simp
    have d: "x ! (r' + 1) < x ! i" using fp by (rule flat_peak_fall)
    show False
    proof (cases "r' + 1 < e")
      case True
      have "x ! i = x ! (r' + 1)" using pe(3)[of "r' + 1"] b True by simp
      then show False using d by simp
    next
      case False
      then have "e \<le> r'" using ne pe(1) by linarith
      then have "x ! i = x ! e" using flat_peak_flat[OF fp, of e] pe(1) by simp
      then show False using down by simp
    qed
  qed
  have none: "\<not> flat_peak x l' r'" if "i < l'" "l' \<le> e" for l' r'
  proof
    assume fp: "flat_peak x l' r'"
    have rise: "x ! (l' - 1) < x ! l'" using fp by (rule flat_peak_rise)
    show False
    proof (cases "l' = e")
      case True
      have "x ! i = x ! (e - 1)" using pe(3)[of "e - 1"] pe(1) by simp
      then show False using rise down True by simp
    next
      case False
      then have "l' < e" using that by simp
      then have "x ! i = x ! l'" "x ! i = x ! (l' - 1)"
        using pe(3)[of l'] pe(3)[of "l' - 1"] that by auto
      then show False using rise by simp
    qed
  qed
  show ?thesis
  proof
    assume a: "flat_peak x l r \<and> i \<le> l"
    show "(l = i \<and> r = e - 1) \<or> (flat_peak x l r \<and> e + 1 \<le> l)"
    proof (cases "l = i")
      case True
      then show ?thesis using a uniq by simp
    next
      case False
      then have "i < l" using a by simp
      then have "\<not> l \<le> e" using none[of l r] a by blast
      then show ?thesis using a by simp
    qed
  next
    assume "(l = i \<and> r = e - 1) \<or> (flat_peak x l r \<and> e + 1 \<le> l)"
    then show "flat_peak x l r \<and> i \<le> l" using own pe(1) by auto
  qed
qed

lemma maxima_step_no_peak:
  assumes i: "0 < i" "i + 1 < length x"
    and e: "e = plateau_end x i (i + 1)" and down: "\<not> x ! e < x ! i"
  shows "\<not> flat_peak x i r"
proof
  assume fp: "flat_peak x i r"
  note pe = plateau_end_first[OF i(2) e]
  have b: "i \<le> r" "r + 1 < length x" using flat_peak_bounds[OF fp] by simp_all
  have d: "x ! (r + 1) < x ! i" using fp by (rule flat_peak_fall)
  consider "e \<le> r" | "e = r + 1" | "r + 1 < e" by linarith
  then show False
  proof cases
    case 1
    then have "x ! i = x ! e" using flat_peak_flat[OF fp, of e] pe(1) by simp
    then have "e + 1 = length x" using pe(4) by simp
    then show False using 1 b by simp
  next
    case 2
    then show False using d down by simp
  next
    case 3
    then have "x ! i = x ! (r + 1)" using pe(3)[of "r + 1"] b by simp
    then show False using d by simp
  qed
qed

lemma skip_start:
  assumes "\<And>r. \<not> flat_peak x i r"
  shows "(\<exists>l r. flat_peak x l r \<and> i \<le> l \<and> p = (l + r) div 2)
           \<longleftrightarrow> (\<exists>l r. flat_peak x l r \<and> i + 1 \<le> l \<and> p = (l + r) div 2)"
proof
  assume "\<exists>l r. flat_peak x l r \<and> i \<le> l \<and> p = (l + r) div 2"
  then obtain l r where fp: "flat_peak x l r" and le: "i \<le> l" and p: "p = (l + r) div 2"
    by blast
  have "l \<noteq> i" using fp assms by blast
  then have "i + 1 \<le> l" using le by simp
  then show "\<exists>l r. flat_peak x l r \<and> i + 1 \<le> l \<and> p = (l + r) div 2" using fp p by blast
next
  assume "\<exists>l r. flat_peak x l r \<and> i + 1 \<le> l \<and> p = (l + r) div 2"
  then obtain l r where fp: "flat_peak x l r" and le: "i + 1 \<le> l" and p: "p = (l + r) div 2"
    by blast
  have "i \<le> l" using le by simp
  then show "\<exists>l r. flat_peak x l r \<and> i \<le> l \<and> p = (l + r) div 2" using fp p by blast
qed

lemma local_maxima_from_iff:
  "0 < i \<Longrightarrow>
   p \<in> set (local_maxima_from x i) \<longleftrightarrow> (\<exists>l r. flat_peak x l r \<and> i \<le> l \<and> p = (l + r) div 2)"
proof (induction x i rule: local_maxima_from.induct)
  case (1 x i)
  show ?case
  proof (cases "i + 1 < length x")
    case False
    then have "local_maxima_from x i = []" by (subst local_maxima_from.simps) simp
    moreover have "\<not> (flat_peak x l r \<and> i \<le> l)" for l r
      using False flat_peak_bounds[of x l r] by auto
    ultimately show ?thesis by auto
  next
    case inside: True
    show ?thesis
    proof (cases "x ! (i - 1) < x ! i")
      case False
      then have eq: "local_maxima_from x i = local_maxima_from x (i + 1)"
        using inside by (subst local_maxima_from.simps) simp
      have no: "\<not> flat_peak x i r" for r using False by (simp add: flat_peak_def)
      have "p \<in> set (local_maxima_from x (i + 1))
              \<longleftrightarrow> (\<exists>l r. flat_peak x l r \<and> i + 1 \<le> l \<and> p = (l + r) div 2)"
        using 1(3)[OF inside False] by simp
      then show ?thesis unfolding eq skip_start[of x i p, OF no] .
    next
      case up: True
      define e where "e = plateau_end x i (i + 1)"
      show ?thesis
      proof (cases "x ! e < x ! i")
        case down: True
        have eq: "local_maxima_from x i = ((i + (e - 1)) div 2) # local_maxima_from x (e + 1)"
          using inside up down unfolding e_def by (subst local_maxima_from.simps) (simp add: Let_def)
        have IH: "p \<in> set (local_maxima_from x (e + 1))
                   \<longleftrightarrow> (\<exists>l r. flat_peak x l r \<and> e + 1 \<le> l \<and> p = (l + r) div 2)"
          using 1(1)[OF inside up e_def down] by simp
        have step: "(flat_peak x l r \<and> i \<le> l) \<longleftrightarrow> (l = i \<and> r = e - 1) \<or> (flat_peak x l r \<and> e + 1 \<le> l)"
          for l r
          using maxima_step_peak[OF 1(4) inside up e_def down] .
        have "(\<exists>l r. flat_peak x l r \<and> i \<le> l \<and> p = (l + r) div 2)
               \<longleftrightarrow> (\<exists>l r. (flat_peak x l r \<and> i \<le> l) \<and> p = (l + r) div 2)"
          by (simp only: conj_assoc)
        also have "\<dots> \<longleftrightarrow> (\<exists>l r. ((l = i \<and> r = e - 1) \<or> (flat_peak x l r \<and> e + 1 \<le> l))
                                  \<and> p = (l + r) div 2)"
          by (simp only: step)
        also have "\<dots> \<longleftrightarrow> p = (i + (e - 1)) div 2 \<or>
                          (\<exists>l r. flat_peak x l r \<and> e + 1 \<le> l \<and> p = (l + r) div 2)"
          by blast
        finally show ?thesis unfolding eq using IH by simp
      next
        case flat: False
        have eq: "local_maxima_from x i = local_maxima_from x (i + 1)"
          using inside up flat unfolding e_def by (subst local_maxima_from.simps) (simp add: Let_def)
        have no: "\<not> flat_peak x i r" for r
          using maxima_step_no_peak[OF 1(4) inside e_def flat] .
        have "p \<in> set (local_maxima_from x (i + 1))
                \<longleftrightarrow> (\<exists>l r. flat_peak x l r \<and> i + 1 \<le> l \<and> p = (l + r) div 2)"
          using 1(2)[OF inside up e_def flat] by simp
        then show ?thesis unfolding eq skip_start[of x i p, OF no] .
      qed
    qed
  qed
qed

lemma local_maxima_1d_iff: "p \<in> set (local_maxima_1d x) \<longleftrightarrow> local_peak x p"
proof -
  have "p \<in> set (local_maxima_1d x) \<longleftrightarrow> (\<exists>l r. flat_peak x l r \<and> 1 \<le> l \<and> p = (l + r) div 2)"
    unfolding local_maxima_1d_def using local_maxima_from_iff[of 1 p x] by simp
  also have "\<dots> \<longleftrightarrow> local_peak x p"
  proof
    assume "\<exists>l r. flat_peak x l r \<and> 1 \<le> l \<and> p = (l + r) div 2"
    then obtain l r where fp: "flat_peak x l r" and p: "p = (l + r) div 2" by blast
    have "l < length x" "r < length x" using flat_peak_bounds[OF fp] by auto
    then have "l \<in> {0..<length x}" "r \<in> {0..<length x}" by auto
    then show "local_peak x p" unfolding local_peak_def using fp p by blast
  next
    assume "local_peak x p"
    then obtain l r where fp: "flat_peak x l r" and p: "p = (l + r) div 2"
      unfolding local_peak_def by blast
    have "1 \<le> l" using flat_peak_bounds[OF fp] by auto
    then show "\<exists>l r. flat_peak x l r \<and> 1 \<le> l \<and> p = (l + r) div 2" using fp p by blast
  qed
  finally show ?thesis .
qed

lemma local_peak_interior:
  assumes "local_peak x p"
  shows "0 < p \<and> p + 1 < length x"
proof -
  obtain l r where fp: "flat_peak x l r" and p: "p = (l + r) div 2"
    using assms unfolding local_peak_def by blast
  have "0 < l" "l \<le> r" "r + 1 < length x" using flat_peak_bounds[OF fp] by auto
  then show ?thesis unfolding p by auto
qed


section \<open>Claim about detection\<close>

text \<open>
  C4. For every input series and thresholds, an index is reported as a local maximum if
  and only if it is a local peak of the NH3 column whose value is at least the upper
  threshold and whose topographic prominence is at least 0.3; it is reported as a local
  minimum if and only if it is a local peak of the negated column whose value is at
  most the lower threshold and whose prominence in the negated column is at least 0.3.
  Every reported index is interior.
\<close>

theorem detection_contract:
  "(i \<in> set (maxima_idx series hi) \<longleftrightarrow>
      local_peak (map NH3 series) i \<and> hi \<le> NH3 (series ! i) \<and>
      3 / 10 \<le> topographic_prominence (map NH3 series) i) \<and>
   (i \<in> set (minima_idx series lo) \<longleftrightarrow>
      local_peak (map (\<lambda>r. - NH3 r) series) i \<and> NH3 (series ! i) \<le> lo \<and>
      3 / 10 \<le> topographic_prominence (map (\<lambda>r. - NH3 r) series) i) \<and>
   (i \<in> set (maxima_idx series hi) \<or> i \<in> set (minima_idx series lo) \<longrightarrow>
      0 < i \<and> i + 1 < length series)"
proof -
  have gen: "i \<in> set (find_peaks (map f series) h (3 / 10)) \<longleftrightarrow>
               local_peak (map f series) i \<and> h \<le> f (series ! i) \<and>
               3 / 10 \<le> topographic_prominence (map f series) i"
    for f :: "sample \<Rightarrow> real" and h
  proof (cases "local_peak (map f series) i")
    case True
    then have "i < length (map f series)" using local_peak_interior by fastforce
    then show ?thesis
      using True by (simp add: find_peaks_def local_maxima_1d_iff peak_prominence_topographic)
  next
    case False
    then show ?thesis by (simp add: find_peaks_def local_maxima_1d_iff)
  qed
  have inside: "0 < i \<and> i + 1 < length series" if "local_peak (map f series) i"
    for f :: "sample \<Rightarrow> real"
    using local_peak_interior[OF that] by simp
  have a: "i \<in> set (maxima_idx series hi) \<longleftrightarrow>
      local_peak (map NH3 series) i \<and> hi \<le> NH3 (series ! i) \<and>
      3 / 10 \<le> topographic_prominence (map NH3 series) i"
    unfolding maxima_idx_def by (rule gen)
  have b: "i \<in> set (minima_idx series lo) \<longleftrightarrow>
      local_peak (map (\<lambda>r. - NH3 r) series) i \<and> NH3 (series ! i) \<le> lo \<and>
      3 / 10 \<le> topographic_prominence (map (\<lambda>r. - NH3 r) series) i"
    unfolding minima_idx_def using gen[of "\<lambda>r. - NH3 r" "- lo"] by simp
  show ?thesis using a b inside[of NH3] inside[of "\<lambda>r. - NH3 r"] by blast
qed

theorem detection_contract_witness:
  "1 \<in> set (maxima_idx [\<lparr>Time = 0, NH3 = 1\<rparr>, \<lparr>Time = 1, NH3 = 5\<rparr>, \<lparr>Time = 2, NH3 = 1\<rparr>,
                         \<lparr>Time = 3, NH3 = 6\<rparr>, \<lparr>Time = 4, NH3 = 1\<rparr>] 4) \<and>
   local_peak (map NH3 [\<lparr>Time = 0, NH3 = 1\<rparr>, \<lparr>Time = 1, NH3 = 5\<rparr>, \<lparr>Time = 2, NH3 = 1\<rparr>,
                         \<lparr>Time = 3, NH3 = 6\<rparr>, \<lparr>Time = 4, NH3 = 1\<rparr>]) 1 \<and>
   3 / 10 \<le> topographic_prominence
              (map NH3 [\<lparr>Time = 0, NH3 = 1\<rparr>, \<lparr>Time = 1, NH3 = 5\<rparr>, \<lparr>Time = 2, NH3 = 1\<rparr>,
                        \<lparr>Time = 3, NH3 = 6\<rparr>, \<lparr>Time = 4, NH3 = 1\<rparr>]) 1 \<and>
   1 \<notin> set (minima_idx [\<lparr>Time = 0, NH3 = 1\<rparr>, \<lparr>Time = 1, NH3 = 5\<rparr>, \<lparr>Time = 2, NH3 = 1\<rparr>,
                         \<lparr>Time = 3, NH3 = 6\<rparr>, \<lparr>Time = 4, NH3 = 1\<rparr>] 2)"
proof -
  have mx: "local_maxima_1d [1, 5, 1, 6, 1 :: real] = [1, 3]"
    by (simp add: local_maxima_1d_def local_maxima_from.simps plateau_end.simps)
  have mn: "local_maxima_1d [- 1, - 5, - 1, - 6, - 1 :: real] = [2]"
    by (simp add: local_maxima_1d_def local_maxima_from.simps plateau_end.simps)
  have h: "1 \<in> set (maxima_idx [\<lparr>Time = 0, NH3 = 1\<rparr>, \<lparr>Time = 1, NH3 = 5\<rparr>, \<lparr>Time = 2, NH3 = 1\<rparr>,
                         \<lparr>Time = 3, NH3 = 6\<rparr>, \<lparr>Time = 4, NH3 = 1\<rparr>] 4)"
    by (simp add: maxima_idx_def find_peaks_def mx peak_prominence_def)
  have n: "1 \<notin> set (minima_idx [\<lparr>Time = 0, NH3 = 1\<rparr>, \<lparr>Time = 1, NH3 = 5\<rparr>, \<lparr>Time = 2, NH3 = 1\<rparr>,
                         \<lparr>Time = 3, NH3 = 6\<rparr>, \<lparr>Time = 4, NH3 = 1\<rparr>] 2)"
    by (simp add: minima_idx_def find_peaks_def mn peak_prominence_def)
  show ?thesis
    using h n detection_contract
      [of 1 "[\<lparr>Time = 0, NH3 = 1\<rparr>, \<lparr>Time = 1, NH3 = 5\<rparr>, \<lparr>Time = 2, NH3 = 1\<rparr>,
              \<lparr>Time = 3, NH3 = 6\<rparr>, \<lparr>Time = 4, NH3 = 1\<rparr>]" 4 2]
    by blast
qed


end
